theory Spec2Isabelle
  imports Complex_Main
begin

section \<open>JavaScript numbers\<close>

text \<open>
  The program computes with JavaScript numbers. A finite number is modelled as an exact
  real (rounding and overflow of the double format are not modelled, and the two zeros
  are one value, read as the positive one), extended by the three special values of the
  format, because the code has no guard against them: a division by zero and a
  not-a-number step value flow through the same arithmetic as every other input.
\<close>

datatype jsnum = Fin real | PInf | NInf | NaN

fun is_finite :: "jsnum \<Rightarrow> bool" where
  "is_finite (Fin a) = True"
| "is_finite PInf = False"
| "is_finite NInf = False"
| "is_finite NaN = False"

fun fin_val :: "jsnum \<Rightarrow> real" where
  "fin_val (Fin a) = a"
| "fin_val PInf = 0"
| "fin_val NInf = 0"
| "fin_val NaN = 0"

fun js_neg :: "jsnum \<Rightarrow> jsnum" where
  "js_neg (Fin a) = Fin (- a)"
| "js_neg PInf = NInf"
| "js_neg NInf = PInf"
| "js_neg NaN = NaN"

fun js_add :: "jsnum \<Rightarrow> jsnum \<Rightarrow> jsnum" where
  "js_add (Fin a) (Fin b) = Fin (a + b)"
| "js_add NaN b = NaN"
| "js_add a NaN = NaN"
| "js_add PInf NInf = NaN"
| "js_add NInf PInf = NaN"
| "js_add PInf b = PInf"
| "js_add a PInf = PInf"
| "js_add NInf b = NInf"
| "js_add a NInf = NInf"

definition js_sub :: "jsnum \<Rightarrow> jsnum \<Rightarrow> jsnum" where
  "js_sub a b = js_add a (js_neg b)"

text \<open>The sign of a product with an infinity; zero times infinity is not a number.\<close>

definition inf_signed :: "bool \<Rightarrow> real \<Rightarrow> jsnum" where
  "inf_signed positive b =
     (if b = 0 then NaN else if (0 < b) = positive then PInf else NInf)"

fun js_mul :: "jsnum \<Rightarrow> jsnum \<Rightarrow> jsnum" where
  "js_mul (Fin a) (Fin b) = Fin (a * b)"
| "js_mul NaN b = NaN"
| "js_mul a NaN = NaN"
| "js_mul PInf (Fin b) = inf_signed True b"
| "js_mul NInf (Fin b) = inf_signed False b"
| "js_mul (Fin a) PInf = inf_signed True a"
| "js_mul (Fin a) NInf = inf_signed False a"
| "js_mul PInf PInf = PInf"
| "js_mul NInf NInf = PInf"
| "js_mul PInf NInf = NInf"
| "js_mul NInf PInf = NInf"

fun js_div :: "jsnum \<Rightarrow> jsnum \<Rightarrow> jsnum" where
  "js_div (Fin a) (Fin b) =
     (if b = 0 then (if a = 0 then NaN else if 0 < a then PInf else NInf)
      else Fin (a / b))"
| "js_div NaN b = NaN"
| "js_div a NaN = NaN"
| "js_div (Fin a) PInf = Fin 0"
| "js_div (Fin a) NInf = Fin 0"
| "js_div PInf (Fin b) = (if 0 \<le> b then PInf else NInf)"
| "js_div NInf (Fin b) = (if 0 \<le> b then NInf else PInf)"
| "js_div PInf PInf = NaN"
| "js_div PInf NInf = NaN"
| "js_div NInf PInf = NaN"
| "js_div NInf NInf = NaN"

text \<open>\<open>Math.floor\<close>.\<close>

fun js_floor :: "jsnum \<Rightarrow> jsnum" where
  "js_floor (Fin a) = Fin (of_int \<lfloor>a\<rfloor>)"
| "js_floor PInf = PInf"
| "js_floor NInf = NInf"
| "js_floor NaN = NaN"

text \<open>The comparison \<open><\<close>: false as soon as one side is not a number.\<close>

fun js_lt :: "jsnum \<Rightarrow> jsnum \<Rightarrow> bool" where
  "js_lt (Fin a) (Fin b) = (a < b)"
| "js_lt NaN b = False"
| "js_lt a NaN = False"
| "js_lt NInf NInf = False"
| "js_lt NInf b = True"
| "js_lt a NInf = False"
| "js_lt PInf b = False"
| "js_lt a PInf = True"

definition js_gt :: "jsnum \<Rightarrow> jsnum \<Rightarrow> bool" where
  "js_gt a b = js_lt b a"

text \<open>\<open>Math.max\<close> of two arguments.\<close>

fun js_max :: "jsnum \<Rightarrow> jsnum \<Rightarrow> jsnum" where
  "js_max (Fin a) (Fin b) = Fin (max a b)"
| "js_max NaN b = NaN"
| "js_max a NaN = NaN"
| "js_max PInf b = PInf"
| "js_max a PInf = PInf"
| "js_max NInf b = b"
| "js_max a NInf = a"

text \<open>
  The remainder operator \<open>%\<close>: the quotient is truncated towards zero, so the result
  has the sign of the dividend.
\<close>

definition trunc :: "real \<Rightarrow> int" where
  "trunc a = (if 0 \<le> a then \<lfloor>a\<rfloor> else \<lceil>a\<rceil>)"

fun js_rem :: "jsnum \<Rightarrow> jsnum \<Rightarrow> jsnum" where
  "js_rem (Fin a) (Fin b) = (if b = 0 then NaN else Fin (a - b * of_int (trunc (a / b))))"
| "js_rem (Fin a) PInf = Fin a"
| "js_rem (Fin a) NInf = Fin a"
| "js_rem a b = NaN"

text \<open>\<open>Math.sin\<close>.\<close>

fun js_sin :: "jsnum \<Rightarrow> jsnum" where
  "js_sin (Fin a) = Fin (sin a)"
| "js_sin a = NaN"


section \<open>The row component: \<open>NumberRow\<close>\<close>

datatype TailType = classic | ghost | echo | stepped | glitch

text \<open>
  The properties of a row that \<open>stepData\<close> reads. The label, the row index and the colour
  palette only reach the paint code.
\<close>

record NumberRowProps =
  movementValue :: jsnum
  currentStep :: jsnum
  itemSize :: jsnum
  wrapWidth :: jsnum
  shouldWrap :: bool
  isTailEnabled :: bool
  isFollowEnabled :: bool
  tailType :: TailType
  focusX :: jsnum
  viewportWidth :: jsnum

text \<open>One entry of \<open>positions\<close>; the head is pushed without a scale.\<close>

record marker =
  pos_x :: jsnum
  isHead :: bool
  opacity :: jsnum
  scale :: "jsnum option"

definition effectiveWrap :: "NumberRowProps \<Rightarrow> bool" where
  "effectiveWrap p = (shouldWrap p \<and> \<not> isFollowEnabled p)"

definition quantizedWrapWidth :: "NumberRowProps \<Rightarrow> jsnum" where
  "quantizedWrapWidth p =
     (let units = js_floor (js_div (wrapWidth p) (itemSize p))
      in js_mul (js_max units (Fin 1)) (itemSize p))"

definition transitionWidth :: jsnum where
  "transitionWidth = Fin (1 / 2)"

definition currentTriggerCount :: "jsnum \<Rightarrow> jsnum \<Rightarrow> jsnum" where
  "currentTriggerCount N v = js_floor (js_div N v)"

definition distToNext :: "jsnum \<Rightarrow> jsnum \<Rightarrow> jsnum" where
  "distToNext N v =
     (let nextTriggerAt = js_mul (js_add (currentTriggerCount N v) (Fin 1)) v
      in js_sub nextTriggerAt N)"

definition easedT :: "jsnum \<Rightarrow> jsnum" where
  "easedT t = js_mul (js_mul t t) (js_sub (Fin 3) (js_mul (Fin 2) t))"

definition animatedTriggerCount :: "jsnum \<Rightarrow> jsnum \<Rightarrow> jsnum" where
  "animatedTriggerCount N v =
     (if js_lt (distToNext N v) transitionWidth
      then let t = js_sub (Fin 1) (js_div (distToNext N v) transitionWidth)
           in js_add (currentTriggerCount N v) (easedT t)
      else currentTriggerCount N v)"

definition unitStepInPixels :: "NumberRowProps \<Rightarrow> jsnum" where
  "unitStepInPixels p = js_mul (movementValue p) (itemSize p)"

definition headAbsoluteDisplacement :: "NumberRowProps \<Rightarrow> jsnum" where
  "headAbsoluteDisplacement p =
     js_mul (animatedTriggerCount (currentStep p) (movementValue p)) (unitStepInPixels p)"

definition getRelativeX :: "NumberRowProps \<Rightarrow> jsnum \<Rightarrow> jsnum" where
  "getRelativeX p absDisp =
     (if effectiveWrap p then js_rem absDisp (quantizedWrapWidth p)
      else js_sub (js_add (js_sub absDisp (focusX p)) (js_div (viewportWidth p) (Fin 2)))
             (js_div (itemSize p) (Fin 2)))"

text \<open>The parameters the \<open>switch\<close> on the tail type leaves behind.\<close>

fun tail_limit :: "TailType \<Rightarrow> bool \<Rightarrow> nat" where
  "tail_limit ghost w = 20"
| "tail_limit echo w = 60"
| "tail_limit stepped w = 100"
| "tail_limit glitch w = 30"
| "tail_limit classic w = (if w then 80 else 40)"

fun tail_stepSize :: "TailType \<Rightarrow> nat" where
  "tail_stepSize stepped = 3"
| "tail_stepSize t = 1"

fun tail_opacityBase :: "TailType \<Rightarrow> jsnum" where
  "tail_opacityBase ghost = Fin (2 / 10)"
| "tail_opacityBase echo = Fin (3 / 10)"
| "tail_opacityBase t = Fin (4 / 10)"

definition limit_of :: "NumberRowProps \<Rightarrow> nat" where
  "limit_of p = tail_limit (tailType p) (effectiveWrap p)"

definition lapStartDisplacement :: "NumberRowProps \<Rightarrow> jsnum" where
  "lapStartDisplacement p =
     (if effectiveWrap p
      then js_mul (js_floor (js_div (headAbsoluteDisplacement p) (quantizedWrapWidth p)))
             (quantizedWrapWidth p)
      else NInf)"

text \<open>The opacity every style starts from, before the style's own change.\<close>

definition linearOpacity :: "NumberRowProps \<Rightarrow> nat \<Rightarrow> jsnum" where
  "linearOpacity p k =
     js_max (Fin 0)
       (js_mul (tail_opacityBase (tailType p))
          (js_sub (Fin 1) (js_div (Fin (real k)) (Fin (real (limit_of p))))))"

definition tailOpacity :: "NumberRowProps \<Rightarrow> nat \<Rightarrow> jsnum" where
  "tailOpacity p k =
     (if tailType p = echo then (if k < 10 then Fin (25 / 100) else Fin (5 / 100))
      else linearOpacity p k)"

definition tailTriggerIndex :: "NumberRowProps \<Rightarrow> nat \<Rightarrow> jsnum" where
  "tailTriggerIndex p k =
     js_sub (animatedTriggerCount (currentStep p) (movementValue p)) (Fin (real k))"

definition tailAbsoluteDisp :: "NumberRowProps \<Rightarrow> nat \<Rightarrow> jsnum" where
  "tailAbsoluteDisp p k = js_mul (tailTriggerIndex p k) (unitStepInPixels p)"

definition tailX :: "NumberRowProps \<Rightarrow> nat \<Rightarrow> jsnum" where
  "tailX p k =
     (let tx = getRelativeX p (tailAbsoluteDisp p k)
      in if tailType p = echo then tx
         else if tailType p = glitch
         then js_add tx
                (js_mul (js_sin (js_add (js_mul (Fin (real k)) (Fin (15 / 10)))
                                   (js_mul (currentStep p) (Fin 5))))
                   (Fin 4))
         else tx)"

definition tailScale :: "NumberRowProps \<Rightarrow> nat \<Rightarrow> jsnum" where
  "tailScale p k =
     (if tailType p = echo then Fin 1
      else if tailType p = glitch then Fin 1
      else if tailType p = stepped
      then js_max (Fin (6 / 10))
             (js_sub (Fin 1) (js_div (Fin (real k)) (Fin (real (limit_of p)))))
      else Fin 1)"

definition tailMarker :: "NumberRowProps \<Rightarrow> nat \<Rightarrow> marker" where
  "tailMarker p k =
     \<lparr>pos_x = tailX p k, isHead = False, opacity = tailOpacity p k,
      scale = Some (tailScale p k)\<rparr>"

text \<open>
  The \<open>for\<close> loop over \<open>k\<close>, from the value of \<open>k\<close> it is entered with: the list of the
  markers it pushes, in the order of the pushes. Both \<open>break\<close>s end the loop.
\<close>

function tailLoop :: "NumberRowProps \<Rightarrow> nat \<Rightarrow> marker list" where
  "tailLoop p k =
     (if k \<le> limit_of p then
        (if js_lt (tailTriggerIndex p k) (Fin 0) then []
         else if effectiveWrap p \<and> js_lt (tailAbsoluteDisp p k) (lapStartDisplacement p)
         then []
         else (if js_gt (tailOpacity p k) (Fin (1 / 100)) then [tailMarker p k] else [])
              @ tailLoop p (k + tail_stepSize (tailType p)))
      else [])"
  by pat_completeness auto

termination
proof (relation "measure (\<lambda>(p, k). limit_of p + 1 - k)")
  show "wf (measure (\<lambda>(p, k). limit_of p + 1 - k))"
    by simp
next
  fix p :: NumberRowProps and k :: nat
  assume "k \<le> limit_of p"
  moreover have "0 < tail_stepSize (tailType p)"
    by (cases "tailType p") simp_all
  ultimately show "((p, k + tail_stepSize (tailType p)), (p, k))
      \<in> measure (\<lambda>(p, k). limit_of p + 1 - k)"
    by simp
qed

declare tailLoop.simps [simp del]

definition headMarker :: "NumberRowProps \<Rightarrow> marker" where
  "headMarker p =
     \<lparr>pos_x = getRelativeX p (headAbsoluteDisplacement p), isHead = True,
      opacity = Fin 1, scale = None\<rparr>"

definition stepData :: "NumberRowProps \<Rightarrow> marker list" where
  "stepData p = headMarker p # (if isTailEnabled p then tailLoop p 1 else [])"


section \<open>The three-dimensional scene\<close>

text \<open>
  The scene's update loop recomputes the animated count of lane \<open>v\<close> on its own; lane 1 and
  lane 2 both move with rate 1.
\<close>

definition sceneMovementValue :: "int \<Rightarrow> int" where
  "sceneMovementValue v = (if v = 1 then 1 else v - 1)"

definition sceneAnimatedCount :: "jsnum \<Rightarrow> int \<Rightarrow> jsnum" where
  "sceneAnimatedCount N v =
     (let movementValue = Fin (of_int (sceneMovementValue v));
          curCount = js_floor (js_div N movementValue);
          nextTrig = js_mul (js_add curCount (Fin 1)) movementValue;
          dist = js_sub nextTrig N
      in if js_lt dist transitionWidth
         then let t = js_sub (Fin 1) (js_div dist transitionWidth);
                  easedT = js_mul (js_mul t t) (js_sub (Fin 3) (js_mul (Fin 2) t))
              in js_add curCount easedT
         else curCount)"


section \<open>The application: clock, controls and the frame\<close>

datatype SyncMode = manual | seconds | ms

text \<open>
  The state the \<open>App\<close> component holds, with the window size it reads and the time of the
  last animation frame (\<open>lastTimeRef\<close>, \<open>None\<close> for \<open>null\<close>).
\<close>

record App =
  st_currentStep :: jsnum
  st_isPlaying :: bool
  st_shouldWrap :: bool
  st_isTailEnabled :: bool
  st_tailType :: TailType
  st_isFollowEnabled :: bool
  st_speedMultiplier :: jsnum
  st_rowCount :: int
  st_syncMode :: SyncMode
  st_lastTime :: "jsnum option"
  st_height :: jsnum
  st_width :: jsnum

text \<open>One animation frame at time \<open>time\<close>, the wall clock reading \<open>now\<close>.\<close>

definition animate :: "jsnum \<Rightarrow> jsnum \<Rightarrow> App \<Rightarrow> App" where
  "animate time now s =
     (let s' =
        (if st_syncMode s \<noteq> manual then
           (if st_syncMode s = seconds
            then s\<lparr>st_currentStep := js_div now (Fin 1000)\<rparr>
            else s\<lparr>st_currentStep := now\<rparr>)
         else
           (case st_lastTime s of
              Some lastTime \<Rightarrow>
                if st_isPlaying s
                then s\<lparr>st_currentStep :=
                       js_add (st_currentStep s)
                         (js_mul (js_sub time lastTime) (st_speedMultiplier s))\<rparr>
                else s
            | None \<Rightarrow> s))
      in s'\<lparr>st_lastTime := Some time\<rparr>)"

definition handlePlayPause :: "App \<Rightarrow> App" where
  "handlePlayPause s =
     (if st_syncMode s \<noteq> manual
      then s\<lparr>st_syncMode := manual, st_isPlaying := False\<rparr>
      else s\<lparr>st_isPlaying := \<not> st_isPlaying s\<rparr>)"

definition handleStep :: "App \<Rightarrow> App" where
  "handleStep s =
     (let s' = (if st_syncMode s \<noteq> manual then s\<lparr>st_syncMode := manual\<rparr> else s)
      in s'\<lparr>st_isPlaying := False,
            st_currentStep := js_add (js_floor (st_currentStep s)) (Fin 1)\<rparr>)"

definition handleReset :: "App \<Rightarrow> App" where
  "handleReset s = s\<lparr>st_syncMode := manual, st_isPlaying := False, st_currentStep := Fin 0\<rparr>"

text \<open>The click handler of the three sync-mode buttons.\<close>

definition selectSyncMode :: "SyncMode \<Rightarrow> App \<Rightarrow> App" where
  "selectSyncMode mode s =
     (let s' = s\<lparr>st_syncMode := mode\<rparr>
      in if mode \<noteq> manual then s'\<lparr>st_isPlaying := False\<rparr> else s')"

definition totalSlots :: "App \<Rightarrow> int" where
  "totalSlots s = st_rowCount s + 1"

definition actualItemSize :: "App \<Rightarrow> jsnum" where
  "actualItemSize s = js_div (st_height s) (Fin (of_int (totalSlots s)))"

text \<open>
  \<open>Array.from({ length: rowCount }, (_, i) => i + 1)\<close>: a length that is not positive
  gives the empty array.
\<close>

definition followerRows :: "App \<Rightarrow> int list" where
  "followerRows s = map (\<lambda>i. int i + 1) [0 ..< nat (st_rowCount s)]"

definition leaderXOffset :: "App \<Rightarrow> jsnum" where
  "leaderXOffset s =
     (let N = st_currentStep s;
          v = Fin 1;
          curCount = js_floor (js_div N v);
          nextTrig = js_mul (js_add curCount (Fin 1)) v;
          dist = js_sub nextTrig N;
          animatedCount =
            (if js_lt dist (Fin (1 / 2))
             then let t = js_sub (Fin 1) (js_div dist (Fin (1 / 2)));
                      easedT = js_mul (js_mul t t) (js_sub (Fin 3) (js_mul (Fin 2) t))
                  in js_add curCount easedT
             else curCount)
      in js_mul animatedCount (actualItemSize s))"

definition app_focusX :: "App \<Rightarrow> jsnum" where
  "app_focusX s = (if st_isFollowEnabled s then leaderXOffset s else Fin 0)"

text \<open>The properties \<open>App\<close> passes to the row with rate \<open>mv\<close>.\<close>

definition rowProps :: "App \<Rightarrow> jsnum \<Rightarrow> NumberRowProps" where
  "rowProps s mv =
     \<lparr>movementValue = mv, currentStep = st_currentStep s, itemSize = actualItemSize s,
      wrapWidth = st_width s, shouldWrap = st_shouldWrap s,
      isTailEnabled = st_isTailEnabled s, isFollowEnabled = st_isFollowEnabled s,
      tailType = st_tailType s, focusX = app_focusX s, viewportWidth = st_width s\<rparr>"

text \<open>The rates of the rows \<open>App\<close> renders: the leader, then one row per follower.\<close>

definition rowMovementValues :: "App \<Rightarrow> int list" where
  "rowMovementValues s = 1 # map (\<lambda>val. val + 1) (followerRows s)"

definition frameRows :: "App \<Rightarrow> marker list list" where
  "frameRows s =
     stepData (rowProps s (Fin 1))
     # map (\<lambda>val. stepData (rowProps s (Fin (of_int (val + 1))))) (followerRows s)"


section \<open>The eased fraction on finite values\<close>

text \<open>
  With a finite step value and a finite rate other than zero, the fraction \<open>easedT\<close> that
  \<open>stepData\<close> adds to the trigger count is this real function of the distance to the next
  trigger (zero where the code leaves the count as it is).
\<close>

definition ease_at :: "real \<Rightarrow> real" where
  "ease_at d =
     (if d < 1 / 2
      then (1 - d / (1 / 2)) * (1 - d / (1 / 2)) * (3 - 2 * (1 - d / (1 / 2)))
      else 0)"


section \<open>Arithmetic on finite and on special values\<close>

lemma js_sub_Fin [simp]: "js_sub (Fin a) (Fin b) = Fin (a - b)"
  by (simp add: js_sub_def)

lemma js_gt_Fin [simp]: "js_gt (Fin a) (Fin b) = (b < a)"
  by (simp add: js_gt_def)

lemma js_div_not_finite: "\<not> is_finite a \<Longrightarrow> \<not> is_finite (js_div a b)"
  by (cases a; cases b) simp_all

lemma js_floor_finite_iff [simp]: "is_finite (js_floor a) = is_finite a"
  by (cases a) simp_all

lemma js_neg_finite_iff [simp]: "is_finite (js_neg a) = is_finite a"
  by (cases a) simp_all

lemma js_add_not_finite1: "\<not> is_finite a \<Longrightarrow> \<not> is_finite (js_add a b)"
  by (cases a; cases b) simp_all

lemma js_add_not_finite2: "\<not> is_finite b \<Longrightarrow> \<not> is_finite (js_add a b)"
  by (cases a; cases b) simp_all

lemma js_sub_not_finite1: "\<not> is_finite a \<Longrightarrow> \<not> is_finite (js_sub a b)"
  by (simp add: js_sub_def js_add_not_finite1)

lemma inf_signed_not_finite [simp]: "\<not> is_finite (inf_signed s b)"
  by (simp add: inf_signed_def)

lemma js_mul_not_finite1: "\<not> is_finite a \<Longrightarrow> \<not> is_finite (js_mul a b)"
  by (cases a; cases b) simp_all

lemma js_mul_not_finite2: "\<not> is_finite b \<Longrightarrow> \<not> is_finite (js_mul a b)"
  by (cases a; cases b) simp_all

lemma js_rem_not_finite1: "\<not> is_finite a \<Longrightarrow> js_rem a b = NaN"
  by (cases a; cases b) simp_all


section \<open>The trigger count\<close>

lemma currentTriggerCount_not_finite:
  "\<not> is_finite N \<Longrightarrow> \<not> is_finite (currentTriggerCount N v)"
  by (simp add: currentTriggerCount_def js_div_not_finite)

lemma animatedTriggerCount_not_finite:
  "\<not> is_finite N \<Longrightarrow> \<not> is_finite (animatedTriggerCount N v)"
  by (simp add: animatedTriggerCount_def Let_def currentTriggerCount_not_finite
      js_add_not_finite1)

lemma headAbsoluteDisplacement_not_finite:
  "\<not> is_finite (currentStep p) \<Longrightarrow> \<not> is_finite (headAbsoluteDisplacement p)"
  by (simp add: headAbsoluteDisplacement_def animatedTriggerCount_not_finite
      js_mul_not_finite1)

lemma getRelativeX_not_finite: "\<not> is_finite a \<Longrightarrow> \<not> is_finite (getRelativeX p a)"
  by (simp add: getRelativeX_def js_rem_not_finite1 js_sub_not_finite1 js_add_not_finite1)

lemma currentTriggerCount_Fin:
  "v \<noteq> 0 \<Longrightarrow> currentTriggerCount (Fin N) (Fin v) = Fin (of_int \<lfloor>N / v\<rfloor>)"
  by (simp add: currentTriggerCount_def)

lemma distToNext_Fin:
  "v \<noteq> 0 \<Longrightarrow> distToNext (Fin N) (Fin v) = Fin ((of_int \<lfloor>N / v\<rfloor> + 1) * v - N)"
  by (simp add: distToNext_def currentTriggerCount_def)

lemma animatedTriggerCount_Fin:
  "v \<noteq> 0 \<Longrightarrow>
   animatedTriggerCount (Fin N) (Fin v) =
     Fin (of_int \<lfloor>N / v\<rfloor> + ease_at ((of_int \<lfloor>N / v\<rfloor> + 1) * v - N))"
  by (simp add: animatedTriggerCount_def distToNext_Fin currentTriggerCount_Fin
      transitionWidth_def easedT_def ease_at_def Let_def)

text \<open>The scene and the leader offset of \<open>App\<close> repeat the formula of \<open>stepData\<close>.\<close>

lemma sceneAnimatedCount_eq:
  "sceneAnimatedCount N v = animatedTriggerCount N (Fin (of_int (sceneMovementValue v)))"
  by (simp add: sceneAnimatedCount_def animatedTriggerCount_def distToNext_def
      currentTriggerCount_def easedT_def Let_def)

lemma leaderXOffset_eq:
  "leaderXOffset s = js_mul (animatedTriggerCount (st_currentStep s) (Fin 1)) (actualItemSize s)"
  by (simp add: leaderXOffset_def animatedTriggerCount_def distToNext_def
      currentTriggerCount_def easedT_def transitionWidth_def Let_def)


section \<open>The tail loop\<close>

lemma tailLoop_unfold:
  "tailLoop p k =
     (if k \<le> limit_of p \<and> \<not> js_lt (tailTriggerIndex p k) (Fin 0)
         \<and> \<not> (effectiveWrap p \<and> js_lt (tailAbsoluteDisp p k) (lapStartDisplacement p))
      then (if js_gt (tailOpacity p k) (Fin (1 / 100)) then [tailMarker p k] else [])
           @ tailLoop p (k + tail_stepSize (tailType p))
      else [])"
  by (subst tailLoop.simps) simp

lemma tail_stepSize_pos: "0 < tail_stepSize t"
  by (cases t) simp_all

text \<open>Every marker the loop pushes is the marker of some \<open>k\<close> that passed both \<open>break\<close>s.\<close>

lemma tailLoop_members:
  "m \<in> set (tailLoop p k) \<Longrightarrow>
   \<exists>j. k \<le> j \<and> j \<le> limit_of p \<and> \<not> js_lt (tailTriggerIndex p j) (Fin 0)
       \<and> js_gt (tailOpacity p j) (Fin (1 / 100)) \<and> m = tailMarker p j"
proof (induction p k rule: tailLoop.induct)
  case (1 p k)
  let ?go = "k \<le> limit_of p \<and> \<not> js_lt (tailTriggerIndex p k) (Fin 0)
    \<and> \<not> (effectiveWrap p \<and> js_lt (tailAbsoluteDisp p k) (lapStartDisplacement p))"
  from "1.prems" have go: ?go
    by (subst (asm) tailLoop_unfold) (simp split: if_splits)
  with "1.prems" consider
      (here) "js_gt (tailOpacity p k) (Fin (1 / 100))" "m = tailMarker p k"
    | (later) "m \<in> set (tailLoop p (k + tail_stepSize (tailType p)))"
    by (subst (asm) tailLoop_unfold) (auto split: if_splits)
  then show ?case
  proof cases
    case here
    with go show ?thesis
      by blast
  next
    case later
    with "1.IH" go obtain j where "k + tail_stepSize (tailType p) \<le> j" "j \<le> limit_of p"
      "\<not> js_lt (tailTriggerIndex p j) (Fin 0)" "js_gt (tailOpacity p j) (Fin (1 / 100))"
      "m = tailMarker p j"
      by blast
    then show ?thesis
      by (intro exI [of _ j]) simp
  qed
qed

lemma tailLoop_length: "length (tailLoop p k) \<le> limit_of p + 1 - k"
proof (induction p k rule: tailLoop.induct)
  case (1 p k)
  show ?case
  proof (cases "k \<le> limit_of p \<and> \<not> js_lt (tailTriggerIndex p k) (Fin 0)
      \<and> \<not> (effectiveWrap p \<and> js_lt (tailAbsoluteDisp p k) (lapStartDisplacement p))")
    case False
    then have "tailLoop p k = []"
      by (subst tailLoop_unfold) auto
    then show ?thesis
      by simp
  next
    case True
    with "1.IH"
    have "length (tailLoop p (k + tail_stepSize (tailType p)))
        \<le> limit_of p + 1 - (k + tail_stepSize (tailType p))"
      by simp
    moreover have "0 < tail_stepSize (tailType p)"
      by (rule tail_stepSize_pos)
    moreover have "tailLoop p k =
        (if js_gt (tailOpacity p k) (Fin (1 / 100)) then [tailMarker p k] else [])
        @ tailLoop p (k + tail_stepSize (tailType p))"
      using True by (subst tailLoop_unfold) auto
    ultimately show ?thesis
      using True by (cases "js_gt (tailOpacity p k) (Fin (1 / 100))") auto
  qed
qed



lemma limit_of_pos: "0 < limit_of p"
  by (cases "tailType p") (simp_all add: limit_of_def)

lemma classic_tailOpacity:
  "tailType p = classic \<Longrightarrow>
   tailOpacity p k = Fin (max 0 (4 / 10 * (1 - real k / real (limit_of p))))"
  using limit_of_pos [of p] by (simp add: tailOpacity_def linearOpacity_def)

lemma classic_opacity_decreasing:
  assumes "tailType p = classic" and "j < k" and "js_gt (tailOpacity p k) (Fin (1 / 100))"
  shows "js_lt (tailOpacity p k) (tailOpacity p j)"
proof -
  have L: "0 < real (limit_of p)"
    using limit_of_pos [of p] by simp
  have "real j / real (limit_of p) < real k / real (limit_of p)"
    using assms(2) L by (simp add: divide_strict_right_mono)
  then have "4 / 10 * (1 - real k / real (limit_of p)) < 4 / 10 * (1 - real j / real (limit_of p))"
    by simp
  moreover have "0 < 4 / 10 * (1 - real k / real (limit_of p))"
    using assms(1,3) by (simp add: classic_tailOpacity max_def split: if_splits)
  ultimately show ?thesis
    using assms(1) by (simp add: classic_tailOpacity max_def)
qed

lemma classic_tailLoop_sorted:
  "tailType p = classic \<Longrightarrow>
   sorted_wrt (\<lambda>a b. js_lt (opacity b) (opacity a)) (tailLoop p k)"
proof (induction p k rule: tailLoop.induct)
  case (1 p k)
  let ?R = "\<lambda>a b. js_lt (opacity b) (opacity a)"
  let ?next = "tailLoop p (k + tail_stepSize (tailType p))"
  show ?case
  proof (cases "k \<le> limit_of p \<and> \<not> js_lt (tailTriggerIndex p k) (Fin 0)
      \<and> \<not> (effectiveWrap p \<and> js_lt (tailAbsoluteDisp p k) (lapStartDisplacement p))")
    case False
    then have "tailLoop p k = []"
      by (subst tailLoop_unfold) auto
    then show ?thesis
      by simp
  next
    case True
    then have unfold: "tailLoop p k =
        (if js_gt (tailOpacity p k) (Fin (1 / 100)) then [tailMarker p k] else []) @ ?next"
      by (subst tailLoop_unfold) auto
    from "1.IH" "1.prems" True have rest: "sorted_wrt ?R ?next"
      by simp
    have "?R (tailMarker p k) m" if "m \<in> set ?next" for m
    proof -
      from tailLoop_members [OF that] obtain j where j: "k + tail_stepSize (tailType p) \<le> j"
        "js_gt (tailOpacity p j) (Fin (1 / 100))" "m = tailMarker p j"
        by blast
      have "k < j"
        using j(1) tail_stepSize_pos [of "tailType p"] by simp
      from classic_opacity_decreasing [OF "1.prems" this j(2)] j(3) show ?thesis
        by (simp add: tailMarker_def)
    qed
    with rest unfold show ?thesis
      by simp
  qed
qed

lemma tailAbsoluteDisp_not_finite:
  "\<not> is_finite (currentStep p) \<Longrightarrow> \<not> is_finite (tailAbsoluteDisp p k)"
  by (simp add: tailAbsoluteDisp_def tailTriggerIndex_def animatedTriggerCount_not_finite
      js_sub_not_finite1 js_mul_not_finite1)

lemma tailX_not_finite:
  "\<not> is_finite (currentStep p) \<Longrightarrow> \<not> is_finite (tailX p k)"
  by (simp add: tailX_def Let_def tailAbsoluteDisp_not_finite getRelativeX_not_finite
      js_add_not_finite1)


section \<open>Evaluating a row\<close>

lemmas row_defs = stepData_def headMarker_def tailMarker_def tailX_def tailScale_def
  tailOpacity_def linearOpacity_def limit_of_def effectiveWrap_def getRelativeX_def
  headAbsoluteDisplacement_def unitStepInPixels_def tailAbsoluteDisp_def tailTriggerIndex_def
  lapStartDisplacement_def quantizedWrapWidth_def animatedTriggerCount_def distToNext_def
  currentTriggerCount_def easedT_def transitionWidth_def

lemma js_mul_one_left [simp]: "js_mul (Fin 1) a = a"
  by (cases a) (simp_all add: inf_signed_def)

lemma quantizedWrapWidth_Fin:
  "itemSize p = Fin u \<Longrightarrow> u \<noteq> 0 \<Longrightarrow> wrapWidth p = Fin w \<Longrightarrow>
   quantizedWrapWidth p = Fin (max (of_int \<lfloor>w / u\<rfloor>) 1 * u)"
  by (simp add: quantizedWrapWidth_def)

lemma getRelativeX_NaN: "getRelativeX p NaN = NaN"
  by (simp add: getRelativeX_def js_sub_def)

lemma stepData_at_zero:
  assumes "movementValue p = Fin v" and "1 \<le> v" and "currentStep p = Fin 0"
    and "itemSize p = Fin u" and "u \<noteq> 0" and "wrapWidth p = Fin w"
    and "focusX p = Fin f" and "viewportWidth p = Fin vw"
  shows "stepData p =
    [\<lparr>pos_x = Fin (if effectiveWrap p then 0 else 0 - f + vw / 2 - u / 2),
      isHead = True, opacity = Fin 1, scale = None\<rparr>]"
proof -
  have a: "animatedTriggerCount (Fin 0) (Fin v) = Fin 0"
    using assms(2) by (simp add: animatedTriggerCount_Fin ease_at_def)
  have h: "headAbsoluteDisplacement p = Fin 0"
    by (simp add: headAbsoluteDisplacement_def unitStepInPixels_def assms a)
  have "0 < max (real_of_int \<lfloor>w / u\<rfloor>) 1"
    by (simp add: less_max_iff_disj)
  then have q: "max (real_of_int \<lfloor>w / u\<rfloor>) 1 * u \<noteq> 0"
    using assms(5) by simp
  have x: "getRelativeX p (Fin 0) = Fin (if effectiveWrap p then 0 else 0 - f + vw / 2 - u / 2)"
    using q by (simp add: getRelativeX_def quantizedWrapWidth_Fin [OF assms(4,5,6)] assms trunc_def)
  have t: "tailLoop p (Suc 0) = []"
    by (subst tailLoop_unfold) (simp add: tailTriggerIndex_def assms a)
  show ?thesis
    by (simp add: stepData_def headMarker_def h x t)
qed

lemma zero_rate_head:
  assumes "movementValue p = Fin 0"
  shows "headAbsoluteDisplacement p = NaN"
proof -
  have c: "\<not> is_finite (currentTriggerCount (currentStep p) (Fin 0))"
    by (cases "currentStep p") (simp_all add: currentTriggerCount_def)
  have d: "distToNext (currentStep p) (Fin 0) = NaN"
    using c by (cases "currentTriggerCount (currentStep p) (Fin 0)"; cases "currentStep p")
      (simp_all add: distToNext_def js_sub_def inf_signed_def)
  have a: "animatedTriggerCount (currentStep p) (Fin 0) = currentTriggerCount (currentStep p) (Fin 0)"
    by (simp add: animatedTriggerCount_def d)
  have u: "unitStepInPixels p = Fin 0 \<or> unitStepInPixels p = NaN"
    by (cases "itemSize p") (simp_all add: unitStepInPixels_def assms inf_signed_def)
  show ?thesis
    using c u by (cases "currentTriggerCount (currentStep p) (Fin 0)")
      (auto simp: headAbsoluteDisplacement_def assms a inf_signed_def)
qed


section \<open>The animated count on finite values: bounds and order of the exact values\<close>

lemma ease_at_zero [simp]: "ease_at 0 = 1"
  by (simp add: ease_at_def)

lemma ease_at_far: "1 / 2 \<le> d \<Longrightarrow> ease_at d = 0"
  by (simp add: ease_at_def)

lemma ease_at_nonneg: "0 \<le> d \<Longrightarrow> 0 \<le> ease_at d"
  by (simp add: ease_at_def)

lemma ease_at_le_one: "0 \<le> d \<Longrightarrow> ease_at d \<le> 1"
proof (cases "d < 1 / 2")
  case False
  then show ?thesis by (simp add: ease_at_def)
next
  case True
  assume "0 \<le> d"
  have "ease_at d = 1 - d * d * (12 - 16 * d)"
    using True by (simp add: ease_at_def algebra_simps)
  moreover have "0 \<le> d * d * (12 - 16 * d)"
    using True \<open>0 \<le> d\<close> by (intro mult_nonneg_nonneg) simp_all
  ultimately show ?thesis by simp
qed

lemma ease_at_antimono:
  assumes "0 \<le> d1" and "d1 \<le> d2"
  shows "ease_at d2 \<le> ease_at d1"
proof (cases "d2 < 1 / 2")
  case False
  then have "ease_at d2 = 0" by (simp add: ease_at_def)
  with ease_at_nonneg [OF assms(1)] show ?thesis by simp
next
  case True
  with assms have d1: "d1 < 1 / 2" by simp
  have e1: "ease_at d1 = 1 - 12 * (d1 * d1) + 16 * (d1 * d1 * d1)"
    using d1 by (simp add: ease_at_def algebra_simps)
  have e2: "ease_at d2 = 1 - 12 * (d2 * d2) + 16 * (d2 * d2 * d2)"
    using True by (simp add: ease_at_def algebra_simps)
  have d2: "0 \<le> d2" using assms by simp
  define x y z where "x = d1 * d1" and "y = d1 * d2" and "z = d2 * d2"
  have "d1 * d1 \<le> d1 * (1 / 2)"
    using assms(1) d1 by (intro mult_left_mono) simp_all
  then have a: "2 * x \<le> d1" by (simp add: x_def)
  have "d2 * d2 \<le> d2 * (1 / 2)"
    using d2 True by (intro mult_left_mono) simp_all
  then have b: "2 * z \<le> d2" by (simp add: z_def)
  have "d1 * d2 \<le> d1 * (1 / 2)"
    using assms(1) True by (intro mult_left_mono) simp_all
  then have c: "2 * y \<le> d1" by (simp add: y_def)
  have "16 * x + 16 * y + 16 * z \<le> 12 * d1 + 12 * d2"
    using a b c assms(2) by linarith
  then have "16 * (d1 * d1 + d1 * d2 + d2 * d2) \<le> 12 * (d1 + d2)"
    by (simp add: x_def y_def z_def algebra_simps)
  then have "0 \<le> (d2 - d1) * (12 * (d1 + d2) - 16 * (d1 * d1 + d1 * d2 + d2 * d2))"
    using assms(2) by (intro mult_nonneg_nonneg) simp_all
  also have "\<dots> = ease_at d1 - ease_at d2"
    by (simp add: e1 e2 algebra_simps)
  finally show ?thesis by simp
qed

lemma dist_pos:
  assumes "0 < v"
  shows "0 < (of_int \<lfloor>N / v\<rfloor> + 1) * v - N"
proof -
  have "N / v < of_int \<lfloor>N / v\<rfloor> + 1"
    by linarith
  then have "N < (of_int \<lfloor>N / v\<rfloor> + 1) * v"
    using assms by (simp add: pos_divide_less_eq)
  then show ?thesis by simp
qed

lemma animated_nonneg:
  assumes "0 \<le> N" and "0 < v"
  shows "0 \<le> of_int \<lfloor>N / v\<rfloor> + ease_at ((of_int \<lfloor>N / v\<rfloor> + 1) * v - N)"
proof -
  have "0 \<le> N / v" using assms by simp
  then have "0 \<le> \<lfloor>N / v\<rfloor>" by simp
  moreover have "0 \<le> ease_at ((of_int \<lfloor>N / v\<rfloor> + 1) * v - N)"
    using dist_pos [OF assms(2), of N] by (intro ease_at_nonneg) simp
  ultimately show ?thesis by simp
qed

lemma animated_mono:
  assumes "0 < v" and "N1 \<le> N2"
  shows "of_int \<lfloor>N1 / v\<rfloor> + ease_at ((of_int \<lfloor>N1 / v\<rfloor> + 1) * v - N1)
       \<le> of_int \<lfloor>N2 / v\<rfloor> + ease_at ((of_int \<lfloor>N2 / v\<rfloor> + 1) * v - N2)"
proof -
  let ?c1 = "\<lfloor>N1 / v\<rfloor>" and ?c2 = "\<lfloor>N2 / v\<rfloor>"
  let ?d1 = "(of_int ?c1 + 1) * v - N1" and ?d2 = "(of_int ?c2 + 1) * v - N2"
  have d1: "0 < ?d1" and d2: "0 < ?d2"
    using dist_pos [OF assms(1)] by simp_all
  have "N1 / v \<le> N2 / v"
    using assms by (simp add: divide_right_mono)
  then have c: "?c1 \<le> ?c2"
    by (rule floor_mono)
  show ?thesis
  proof (cases "?c1 = ?c2")
    case True
    then have "?d2 \<le> ?d1"
      using assms(2) by simp
    with d2 have "ease_at ?d1 \<le> ease_at ?d2"
      by (intro ease_at_antimono) simp_all
    with True show ?thesis by simp
  next
    case False
    with c have "?c1 + 1 \<le> ?c2" by simp
    then have "real_of_int ?c1 + 1 \<le> real_of_int ?c2"
      by linarith
    moreover have "ease_at ?d1 \<le> 1"
      using d1 by (intro ease_at_le_one) simp
    moreover have "0 \<le> ease_at ?d2"
      using d2 by (intro ease_at_nonneg) simp
    ultimately show ?thesis by linarith
  qed
qed

lemma js_rem_range:
  assumes "0 \<le> a" and "0 < q"
  shows "\<exists>r. js_rem (Fin a) (Fin q) = Fin r \<and> 0 \<le> r \<and> r < q"
proof -
  have t: "trunc (a / q) = \<lfloor>a / q\<rfloor>"
    using assms by (simp add: trunc_def)
  have "of_int \<lfloor>a / q\<rfloor> * q \<le> a / q * q"
    using assms(2) by (intro mult_right_mono) simp_all
  then have lo: "q * of_int \<lfloor>a / q\<rfloor> \<le> a"
    using assms(2) by (simp add: mult.commute)
  from dist_pos [OF assms(2), of a] have hi: "a - q * of_int \<lfloor>a / q\<rfloor> < q"
    by (simp add: algebra_simps)
  show ?thesis
    using assms(2) lo hi by (simp add: t)
qed

text \<open>The animated count advances by one over a full period of the row.\<close>

lemma animated_period:
  assumes "0 < v"
  shows "of_int \<lfloor>(N + v) / v\<rfloor> + ease_at ((of_int \<lfloor>(N + v) / v\<rfloor> + 1) * v - (N + v))
    = of_int \<lfloor>N / v\<rfloor> + ease_at ((of_int \<lfloor>N / v\<rfloor> + 1) * v - N) + 1"
proof -
  have "(N + v) / v = N / v + 1"
    using assms by (simp add: add_divide_distrib)
  then have "\<lfloor>(N + v) / v\<rfloor> = \<lfloor>N / v\<rfloor> + 1"
    by simp
  then show ?thesis
    by (simp add: algebra_simps)
qed

text \<open>
  Claim C2, as the code has it. For a rate of at least 1 and a positive lane size, the head
  displacement is not strictly increasing in the step value. On a plateau it is constant: two
  step values with the same trigger count, the later one at a distance to the next trigger of
  at least the transition width, have the same finite displacement, the trigger count times
  the lane step. Over a full period it is strictly increasing: a step value and one at least
  the rate later have finite displacements, the later one the larger.
\<close>

theorem head_displacement_plateau_and_period:
  assumes "movementValue p = Fin v" and "1 \<le> v" and "itemSize p = Fin u" and "0 < u"
  shows "(N1 \<le> N2
        \<and> currentTriggerCount (Fin N1) (Fin v) = currentTriggerCount (Fin N2) (Fin v)
        \<and> \<not> js_lt (distToNext (Fin N2) (Fin v)) transitionWidth \<longrightarrow>
      headAbsoluteDisplacement (p\<lparr>currentStep := Fin N1\<rparr>)
        = headAbsoluteDisplacement (p\<lparr>currentStep := Fin N2\<rparr>)
      \<and> headAbsoluteDisplacement (p\<lparr>currentStep := Fin N2\<rparr>)
        = js_mul (currentTriggerCount (Fin N2) (Fin v)) (js_mul (Fin v) (Fin u))
      \<and> is_finite (headAbsoluteDisplacement (p\<lparr>currentStep := Fin N2\<rparr>)))
    \<and> (N1 + v \<le> N2 \<longrightarrow>
      (\<exists>h1 h2. headAbsoluteDisplacement (p\<lparr>currentStep := Fin N1\<rparr>) = Fin h1
        \<and> headAbsoluteDisplacement (p\<lparr>currentStep := Fin N2\<rparr>) = Fin h2 \<and> h1 < h2))"
proof (intro conjI impI)
  have v0: "v \<noteq> 0" and vpos: "0 < v"
    using assms(2) by simp_all
  note anim = animatedTriggerCount_Fin [OF v0]
  have head: "headAbsoluteDisplacement (p\<lparr>currentStep := Fin N\<rparr>)
      = Fin ((of_int \<lfloor>N / v\<rfloor> + ease_at ((of_int \<lfloor>N / v\<rfloor> + 1) * v - N)) * (v * u))" for N
    by (simp add: headAbsoluteDisplacement_def unitStepInPixels_def assms(1,3) anim)
  {
    assume h: "N1 \<le> N2
        \<and> currentTriggerCount (Fin N1) (Fin v) = currentTriggerCount (Fin N2) (Fin v)
        \<and> \<not> js_lt (distToNext (Fin N2) (Fin v)) transitionWidth"
    then have c: "\<lfloor>N1 / v\<rfloor> = \<lfloor>N2 / v\<rfloor>"
      by (simp add: currentTriggerCount_Fin [OF v0])
    from h have d2: "1 / 2 \<le> (of_int \<lfloor>N2 / v\<rfloor> + 1) * v - N2"
      by (simp add: distToNext_Fin [OF v0] transitionWidth_def)
    with h have d1: "1 / 2 \<le> (of_int \<lfloor>N2 / v\<rfloor> + 1) * v - N1"
      by linarith
    have e: "ease_at ((of_int \<lfloor>N2 / v\<rfloor> + 1) * v - N2) = 0"
      "ease_at ((of_int \<lfloor>N2 / v\<rfloor> + 1) * v - N1) = 0"
      using d1 d2 by (simp_all add: ease_at_far)
    show "headAbsoluteDisplacement (p\<lparr>currentStep := Fin N1\<rparr>)
        = headAbsoluteDisplacement (p\<lparr>currentStep := Fin N2\<rparr>)"
      by (simp add: head c e)
    show "headAbsoluteDisplacement (p\<lparr>currentStep := Fin N2\<rparr>)
        = js_mul (currentTriggerCount (Fin N2) (Fin v)) (js_mul (Fin v) (Fin u))"
      by (simp add: head e currentTriggerCount_Fin [OF v0])
    show "is_finite (headAbsoluteDisplacement (p\<lparr>currentStep := Fin N2\<rparr>))"
      by (simp add: head)
  }
  {
    assume "N1 + v \<le> N2"
    from animated_mono [OF vpos this] animated_period [OF vpos, of N1]
    have "of_int \<lfloor>N1 / v\<rfloor> + ease_at ((of_int \<lfloor>N1 / v\<rfloor> + 1) * v - N1)
        < of_int \<lfloor>N2 / v\<rfloor> + ease_at ((of_int \<lfloor>N2 / v\<rfloor> + 1) * v - N2)"
      by linarith
    moreover have "0 < v * u"
      using vpos assms(4) by simp
    ultimately have "(of_int \<lfloor>N1 / v\<rfloor> + ease_at ((of_int \<lfloor>N1 / v\<rfloor> + 1) * v - N1)) * (v * u)
        < (of_int \<lfloor>N2 / v\<rfloor> + ease_at ((of_int \<lfloor>N2 / v\<rfloor> + 1) * v - N2)) * (v * u)"
      by (simp only: mult_strict_right_mono)
    then show "\<exists>h1 h2. headAbsoluteDisplacement (p\<lparr>currentStep := Fin N1\<rparr>) = Fin h1
        \<and> headAbsoluteDisplacement (p\<lparr>currentStep := Fin N2\<rparr>) = Fin h2 \<and> h1 < h2"
      by (simp only: head) blast
  }
qed

theorem head_displacement_plateau_and_period_witness:
  "(1::real) \<le> 1 \<and> (0::real) < 10 \<and> (1 / 4 :: real) \<le> 3 / 8
   \<and> currentTriggerCount (Fin (1 / 4)) (Fin 1) = currentTriggerCount (Fin (3 / 8)) (Fin 1)
   \<and> \<not> js_lt (distToNext (Fin (3 / 8)) (Fin 1)) transitionWidth
   \<and> headAbsoluteDisplacement \<lparr>movementValue = Fin 1, currentStep = Fin (1 / 4),
       itemSize = Fin 10, wrapWidth = Fin 100, shouldWrap = True, isTailEnabled = True,
       isFollowEnabled = False, tailType = classic, focusX = Fin 0,
       viewportWidth = Fin 100\<rparr>
     = headAbsoluteDisplacement \<lparr>movementValue = Fin 1, currentStep = Fin (3 / 8),
       itemSize = Fin 10, wrapWidth = Fin 100, shouldWrap = True, isTailEnabled = True,
       isFollowEnabled = False, tailType = classic, focusX = Fin 0,
       viewportWidth = Fin 100\<rparr>
   \<and> (1 / 4 :: real) + 1 \<le> 7 / 4
   \<and> (\<exists>h1 h2. headAbsoluteDisplacement \<lparr>movementValue = Fin 1,
       currentStep = Fin (1 / 4), itemSize = Fin 10, wrapWidth = Fin 100, shouldWrap = True,
       isTailEnabled = True, isFollowEnabled = False, tailType = classic, focusX = Fin 0,
       viewportWidth = Fin 100\<rparr> = Fin h1
     \<and> headAbsoluteDisplacement \<lparr>movementValue = Fin 1,
       currentStep = Fin (7 / 4), itemSize = Fin 10, wrapWidth = Fin 100, shouldWrap = True,
       isTailEnabled = True, isFollowEnabled = False, tailType = classic, focusX = Fin 0,
       viewportWidth = Fin 100\<rparr> = Fin h2 \<and> h1 < h2)
   \<and> headAbsoluteDisplacement \<lparr>movementValue = Fin 1,
       currentStep = Fin (7 / 4), itemSize = Fin 10, wrapWidth = Fin 100, shouldWrap = True,
       isTailEnabled = True, isFollowEnabled = False, tailType = classic, focusX = Fin 0,
       viewportWidth = Fin 100\<rparr> = Fin 15"
proof -
  let ?p = "\<lparr>movementValue = Fin 1, currentStep = Fin 0,
       itemSize = Fin 10, wrapWidth = Fin 100, shouldWrap = True, isTailEnabled = True,
       isFollowEnabled = False, tailType = classic, focusX = Fin 0,
       viewportWidth = Fin 100\<rparr>"
  have hyp: "currentTriggerCount (Fin (1 / 4)) (Fin 1) = currentTriggerCount (Fin (3 / 8)) (Fin 1)"
    "\<not> js_lt (distToNext (Fin (3 / 8)) (Fin 1)) transitionWidth"
    by (simp_all add: row_defs)
  from head_displacement_plateau_and_period [of ?p 1 10 "1 / 4" "3 / 8"] hyp
  have plateau: "headAbsoluteDisplacement (?p\<lparr>currentStep := Fin (1 / 4)\<rparr>)
      = headAbsoluteDisplacement (?p\<lparr>currentStep := Fin (3 / 8)\<rparr>)"
    by simp
  from head_displacement_plateau_and_period [of ?p 1 10 "1 / 4" "7 / 4"]
  have period: "\<exists>h1 h2. headAbsoluteDisplacement (?p\<lparr>currentStep := Fin (1 / 4)\<rparr>) = Fin h1
      \<and> headAbsoluteDisplacement (?p\<lparr>currentStep := Fin (7 / 4)\<rparr>) = Fin h2 \<and> h1 < h2"
    by simp
  have v: "headAbsoluteDisplacement (?p\<lparr>currentStep := Fin (7 / 4)\<rparr>) = Fin 15"
    by (simp add: row_defs)
  from hyp plateau period v show ?thesis
    by simp
qed

text \<open>
  The claim as stated fails: with rate 1 the steps 0 and 1/4 give the same displacement.
\<close>

theorem head_displacement_plateau_counterexample:
  "\<not> js_lt
       (headAbsoluteDisplacement \<lparr>movementValue = Fin 1, currentStep = Fin 0,
          itemSize = Fin 10, wrapWidth = Fin 100, shouldWrap = True, isTailEnabled = True,
          isFollowEnabled = False, tailType = classic, focusX = Fin 0,
          viewportWidth = Fin 100\<rparr>)
       (headAbsoluteDisplacement \<lparr>movementValue = Fin 1, currentStep = Fin (1 / 4),
          itemSize = Fin 10, wrapWidth = Fin 100, shouldWrap = True, isTailEnabled = True,
          isFollowEnabled = False, tailType = classic, focusX = Fin 0,
          viewportWidth = Fin 100\<rparr>)
   \<and> headAbsoluteDisplacement \<lparr>movementValue = Fin 1, currentStep = Fin 0,
       itemSize = Fin 10, wrapWidth = Fin 100, shouldWrap = True, isTailEnabled = True,
       isFollowEnabled = False, tailType = classic, focusX = Fin 0,
       viewportWidth = Fin 100\<rparr> = Fin 0
   \<and> headAbsoluteDisplacement \<lparr>movementValue = Fin 1, currentStep = Fin (1 / 4),
       itemSize = Fin 10, wrapWidth = Fin 100, shouldWrap = True, isTailEnabled = True,
       isFollowEnabled = False, tailType = classic, focusX = Fin 0,
       viewportWidth = Fin 100\<rparr> = Fin 0"
  by (simp add: row_defs)


section \<open>Continuity of the animated count\<close>

lemma ease_at_continuous_on: "continuous_on UNIV ease_at"
proof -
  have c: "continuous_on ({..1 / 2} \<union> {1 / 2..})
      (\<lambda>d::real. if d < 1 / 2
         then (1 - d / (1 / 2)) * (1 - d / (1 / 2)) * (3 - 2 * (1 - d / (1 / 2))) else 0)"
    by (rule continuous_on_If) (auto intro!: continuous_intros)
  have u: "{..1 / 2} \<union> {1 / 2..} = (UNIV :: real set)"
    by auto
  have e: "ease_at = (\<lambda>d::real. if d < 1 / 2
         then (1 - d / (1 / 2)) * (1 - d / (1 / 2)) * (3 - 2 * (1 - d / (1 / 2))) else 0)"
    by (rule ext) (simp only: ease_at_def)
  from c show ?thesis
    unfolding u e .
qed

text \<open>With the trigger count held at \<open>c\<close>, the animated count is continuous in the step.\<close>

lemma branch_isCont: "isCont (\<lambda>N. real_of_int c + ease_at ((real_of_int c + 1) * v - N)) x"
proof -
  have "continuous_on UNIV (\<lambda>N. real_of_int c + ease_at ((real_of_int c + 1) * v - N))"
    by (intro continuous_intros continuous_on_compose2 [OF ease_at_continuous_on]) simp_all
  then show ?thesis
    by (simp add: continuous_on_eq_continuous_at)
qed

lemma floor_left_of_trigger:
  assumes "0 < v"
  shows "\<forall>\<^sub>F N in at_left (real_of_int m * v). \<lfloor>N / v\<rfloor> = m - 1"
proof -
  have "real_of_int m * v - v < real_of_int m * v"
    using assms by simp
  then have "\<forall>\<^sub>F N in at_left (real_of_int m * v). N \<in> {real_of_int m * v - v <..< real_of_int m * v}"
    by (rule eventually_at_left_real)
  then show ?thesis
  proof eventually_elim
    case (elim N)
    then have "(real_of_int m - 1) * v < N" "N < real_of_int m * v"
      by (simp_all add: algebra_simps)
    then have "real_of_int m - 1 < N / v" "N / v < real_of_int m"
      using assms by (simp_all add: pos_less_divide_eq pos_divide_less_eq)
    then show ?case
      by (simp add: floor_eq_iff)
  qed
qed

lemma floor_right_of_trigger:
  assumes "1 \<le> v"
  shows "\<forall>\<^sub>F N in at_right (real_of_int m * v).
    \<lfloor>N / v\<rfloor> = m \<and> 1 / 2 \<le> (real_of_int m + 1) * v - N"
proof -
  have "real_of_int m * v < real_of_int m * v + 1 / 2"
    by simp
  then have "\<forall>\<^sub>F N in at_right (real_of_int m * v).
      N \<in> {real_of_int m * v <..< real_of_int m * v + 1 / 2}"
    by (rule eventually_at_right_real)
  then show ?thesis
  proof eventually_elim
    case (elim N)
    then have lo: "real_of_int m * v < N" and hi: "N < real_of_int m * v + 1 / 2"
      by simp_all
    from hi assms have hi': "N < (real_of_int m + 1) * v"
      by (simp add: algebra_simps)
    have "real_of_int m < N / v" "N / v < real_of_int m + 1"
      using lo hi' assms by (simp_all add: pos_less_divide_eq pos_divide_less_eq)
    then have "\<lfloor>N / v\<rfloor> = m"
      by (simp add: floor_eq_iff)
    moreover have "1 / 2 \<le> (real_of_int m + 1) * v - N"
      using hi assms by (simp add: algebra_simps)
    ultimately show ?case
      by simp
  qed
qed

lemma animated_at_trigger:
  assumes "1 \<le> v"
  shows "real_of_int \<lfloor>real_of_int m * v / v\<rfloor>
    + ease_at ((real_of_int \<lfloor>real_of_int m * v / v\<rfloor> + 1) * v - real_of_int m * v) = real_of_int m"
proof -
  have "real_of_int m * v / v = real_of_int m"
    using assms by simp
  moreover have "ease_at ((real_of_int m + 1) * v - real_of_int m * v) = 0"
    using assms by (intro ease_at_far) (simp add: algebra_simps)
  ultimately show ?thesis
    by simp
qed

lemma animated_tendsto_left:
  assumes "1 \<le> v"
  shows "((\<lambda>N. real_of_int \<lfloor>N / v\<rfloor> + ease_at ((real_of_int \<lfloor>N / v\<rfloor> + 1) * v - N))
    \<longlongrightarrow> real_of_int m) (at_left (real_of_int m * v))"
proof -
  let ?x = "real_of_int m * v"
  let ?g = "\<lambda>N. real_of_int (m - 1) + ease_at ((real_of_int (m - 1) + 1) * v - N)"
  have "isCont ?g ?x"
    by (rule branch_isCont)
  then have "(?g \<longlongrightarrow> ?g ?x) (at ?x)"
    by (simp only: isCont_def)
  then have "(?g \<longlongrightarrow> ?g ?x) (at_left ?x)"
    by (rule tendsto_within_subset) simp
  moreover have "?g ?x = real_of_int m"
    by simp
  ultimately have g: "(?g \<longlongrightarrow> real_of_int m) (at_left ?x)"
    by simp
  have "0 < v"
    using assms by simp
  from floor_left_of_trigger [OF this, of m]
  have "\<forall>\<^sub>F N in at_left ?x.
      real_of_int \<lfloor>N / v\<rfloor> + ease_at ((real_of_int \<lfloor>N / v\<rfloor> + 1) * v - N) = ?g N"
    by eventually_elim simp
  from tendsto_cong [OF this] g show ?thesis
    by simp
qed

lemma animated_eventually_right:
  assumes "1 \<le> v"
  shows "\<forall>\<^sub>F N in at_right (real_of_int m * v).
    real_of_int \<lfloor>N / v\<rfloor> + ease_at ((real_of_int \<lfloor>N / v\<rfloor> + 1) * v - N) = real_of_int m"
  using floor_right_of_trigger [OF assms, of m]
  by eventually_elim (simp add: ease_at_far)

lemma animated_isCont:
  assumes "1 \<le> v"
  shows "isCont (\<lambda>N. real_of_int \<lfloor>N / v\<rfloor> + ease_at ((real_of_int \<lfloor>N / v\<rfloor> + 1) * v - N)) x"
    (is "isCont ?f x")
proof (cases "x / v \<in> \<int>")
  case False
  have v0: "v \<noteq> 0"
    using assms by simp
  have "((\<lambda>N. N / v) \<longlongrightarrow> x / v) (nhds x)"
    using v0 by (intro tendsto_divide tendsto_const) (simp_all add: filterlim_ident)
  from eventually_floor_eq [OF this False]
  have "\<forall>\<^sub>F N in nhds x. ?f N
      = real_of_int \<lfloor>x / v\<rfloor> + ease_at ((real_of_int \<lfloor>x / v\<rfloor> + 1) * v - N)"
    by eventually_elim simp
  from isCont_cong [OF this] show ?thesis
    by (simp add: branch_isCont)
next
  case True
  then obtain m where "x / v = real_of_int m"
    by (auto elim: Ints_cases)
  then have x: "x = real_of_int m * v"
    using assms by (simp add: field_simps)
  have fx: "?f x = real_of_int m"
    unfolding x by (rule animated_at_trigger [OF assms])
  have "(?f \<longlongrightarrow> ?f x) (at_left x)"
    unfolding fx unfolding x by (rule animated_tendsto_left [OF assms])
  moreover have "(?f \<longlongrightarrow> ?f x) (at_right x)"
    unfolding fx unfolding x
    by (rule tendsto_eventually) (rule animated_eventually_right [OF assms])
  ultimately show ?thesis
    unfolding isCont_def by (rule filterlim_split_at)
qed

text \<open>
  Claim C1. For a rate \<open>v\<close> of at least 1 and an integer \<open>m\<close> (the positive ones among them), as
  the step value approaches \<open>m * v\<close> from below the trigger count is \<open>m - 1\<close>, the distance to
  the next trigger tends to 0 and the animated count tends to \<open>m\<close>; at \<open>m * v\<close> the trigger
  count is \<open>m\<close> and so is the animated count, and it stays \<open>m\<close> just above. The animated count,
  always finite, and with it the head displacement, is continuous in the step value at every
  point; so is the count the scene computes for a lane of that rate.
\<close>

theorem animated_count_continuous:
  assumes "1 \<le> v"
  shows "(\<forall>N. is_finite (animatedTriggerCount (Fin N) (Fin v)))
    \<and> (\<forall>\<^sub>F N in at_left (real_of_int m * v).
          currentTriggerCount (Fin N) (Fin v) = Fin (real_of_int (m - 1)))
    \<and> ((\<lambda>N. fin_val (distToNext (Fin N) (Fin v))) \<longlongrightarrow> 0) (at_left (real_of_int m * v))
    \<and> ((\<lambda>N. fin_val (animatedTriggerCount (Fin N) (Fin v))) \<longlongrightarrow> real_of_int m)
          (at_left (real_of_int m * v))
    \<and> currentTriggerCount (Fin (real_of_int m * v)) (Fin v) = Fin (real_of_int m)
    \<and> animatedTriggerCount (Fin (real_of_int m * v)) (Fin v) = Fin (real_of_int m)
    \<and> (\<forall>\<^sub>F N in at_right (real_of_int m * v).
          animatedTriggerCount (Fin N) (Fin v) = Fin (real_of_int m))
    \<and> (\<forall>x. isCont (\<lambda>N. fin_val (animatedTriggerCount (Fin N) (Fin v))) x)
    \<and> (\<forall>N. is_finite (headAbsoluteDisplacement
          (p\<lparr>currentStep := Fin N, movementValue := Fin v, itemSize := Fin u\<rparr>)))
    \<and> (\<forall>x. isCont (\<lambda>N. fin_val (headAbsoluteDisplacement
          (p\<lparr>currentStep := Fin N, movementValue := Fin v, itemSize := Fin u\<rparr>))) x)
    \<and> (\<forall>r. real_of_int (sceneMovementValue r) = v \<longrightarrow>
          (\<forall>x. isCont (\<lambda>N. fin_val (sceneAnimatedCount (Fin N) r)) x))"
proof -
  have v0: "v \<noteq> 0" and vpos: "0 < v"
    using assms by simp_all
  note anim = animatedTriggerCount_Fin [OF v0]
  have fin: "\<forall>N. is_finite (animatedTriggerCount (Fin N) (Fin v))"
    by (simp add: anim)
  have count_left: "\<forall>\<^sub>F N in at_left (real_of_int m * v).
          currentTriggerCount (Fin N) (Fin v) = Fin (real_of_int (m - 1))"
    using floor_left_of_trigger [OF vpos, of m]
    by eventually_elim (simp add: currentTriggerCount_Fin [OF v0])
  have "((\<lambda>N. real_of_int m * v - N) \<longlongrightarrow> real_of_int m * v - real_of_int m * v)
      (at_left (real_of_int m * v))"
    by (intro tendsto_intros)
  moreover have "\<forall>\<^sub>F N in at_left (real_of_int m * v).
      fin_val (distToNext (Fin N) (Fin v)) = real_of_int m * v - N"
    using floor_left_of_trigger [OF vpos, of m]
    by eventually_elim (simp add: distToNext_Fin [OF v0])
  ultimately have dist_left:
    "((\<lambda>N. fin_val (distToNext (Fin N) (Fin v))) \<longlongrightarrow> 0) (at_left (real_of_int m * v))"
    using tendsto_cong [of "\<lambda>N. fin_val (distToNext (Fin N) (Fin v))"
        "\<lambda>N. real_of_int m * v - N" "at_left (real_of_int m * v)" 0]
    by simp
  have anim_left: "((\<lambda>N. fin_val (animatedTriggerCount (Fin N) (Fin v))) \<longlongrightarrow> real_of_int m)
          (at_left (real_of_int m * v))"
    using animated_tendsto_left [OF assms, of m] by (simp add: anim)
  have count_at: "currentTriggerCount (Fin (real_of_int m * v)) (Fin v) = Fin (real_of_int m)"
    using v0 by (simp add: currentTriggerCount_Fin)
  have anim_at: "animatedTriggerCount (Fin (real_of_int m * v)) (Fin v) = Fin (real_of_int m)"
    using animated_at_trigger [OF assms, of m] by (simp only: anim)
  have anim_right: "\<forall>\<^sub>F N in at_right (real_of_int m * v).
          animatedTriggerCount (Fin N) (Fin v) = Fin (real_of_int m)"
    using animated_eventually_right [OF assms, of m]
    by eventually_elim (simp only: anim)
  have cont: "isCont (\<lambda>N. fin_val (animatedTriggerCount (Fin N) (Fin v))) x" for x
    using animated_isCont [OF assms, of x] by (simp add: anim)
  have "isCont (\<lambda>N. fin_val (animatedTriggerCount (Fin N) (Fin v)) * (v * u)) x" for x
    by (intro continuous_intros cont)
  then have head: "isCont (\<lambda>N. fin_val (headAbsoluteDisplacement
          (p\<lparr>currentStep := Fin N, movementValue := Fin v, itemSize := Fin u\<rparr>))) x" for x
    by (simp add: headAbsoluteDisplacement_def unitStepInPixels_def anim)
  have head_fin: "\<forall>N. is_finite (headAbsoluteDisplacement
          (p\<lparr>currentStep := Fin N, movementValue := Fin v, itemSize := Fin u\<rparr>))"
    by (simp add: headAbsoluteDisplacement_def unitStepInPixels_def anim)
  have scene: "\<forall>r. real_of_int (sceneMovementValue r) = v \<longrightarrow>
          (\<forall>x. isCont (\<lambda>N. fin_val (sceneAnimatedCount (Fin N) r)) x)"
    using cont by (simp add: sceneAnimatedCount_eq)
  from fin count_left dist_left anim_left count_at anim_at anim_right cont head_fin head scene
  show ?thesis
    by blast
qed

theorem animated_count_continuous_witness:
  "(1::real) \<le> 2
   \<and> animatedTriggerCount (Fin 6) (Fin 2) = Fin 3
   \<and> ((\<lambda>N. fin_val (animatedTriggerCount (Fin N) (Fin 2))) \<longlongrightarrow> 3) (at_left 6)
   \<and> isCont (\<lambda>N. fin_val (animatedTriggerCount (Fin N) (Fin 2))) 6
   \<and> real_of_int (sceneMovementValue 3) = 2
   \<and> isCont (\<lambda>N. fin_val (sceneAnimatedCount (Fin N) 3)) 6"
  using animated_count_continuous [where v = 2 and m = 3 and u = 10
      and p = "\<lparr>movementValue = Fin 2, currentStep = Fin 0,
       itemSize = Fin 10, wrapWidth = Fin 100, shouldWrap = True, isTailEnabled = True,
       isFollowEnabled = False, tailType = classic, focusX = Fin 0,
       viewportWidth = Fin 100\<rparr>"]
  by (simp add: sceneMovementValue_def)


section \<open>The marker list of a row\<close>

text \<open>
  Claim C10. For every input, the marker list of a row is not empty and starts with the head
  marker, which has \<open>isHead\<close> true and opacity 1; with the tail switched off the list is that
  one marker.
\<close>

theorem stepData_head_first:
  "stepData p \<noteq> []
   \<and> isHead (hd (stepData p)) \<and> opacity (hd (stepData p)) = Fin 1
   \<and> hd (stepData p) = headMarker p
   \<and> (\<not> isTailEnabled p \<longrightarrow> stepData p = [headMarker p])"
  by (simp add: stepData_def headMarker_def)

theorem stepData_head_first_witness:
  "\<not> isTailEnabled \<lparr>movementValue = Fin 1, currentStep = Fin 2, itemSize = Fin 10,
       wrapWidth = Fin 100, shouldWrap = False, isTailEnabled = False, isFollowEnabled = True,
       tailType = classic, focusX = Fin 20, viewportWidth = Fin 100\<rparr>
   \<and> stepData \<lparr>movementValue = Fin 1, currentStep = Fin 2, itemSize = Fin 10,
       wrapWidth = Fin 100, shouldWrap = False, isTailEnabled = False, isFollowEnabled = True,
       tailType = classic, focusX = Fin 20, viewportWidth = Fin 100\<rparr>
     = [\<lparr>pos_x = Fin 45, isHead = True, opacity = Fin 1, scale = None\<rparr>]"
  using stepData_head_first [of "\<lparr>movementValue = Fin 1, currentStep = Fin 2,
       itemSize = Fin 10, wrapWidth = Fin 100, shouldWrap = False, isTailEnabled = False,
       isFollowEnabled = True, tailType = classic, focusX = Fin 20,
       viewportWidth = Fin 100\<rparr>"]
  by (simp add: row_defs)

text \<open>
  Claim C6. For every tail type, wrap state and input, the tail of a row has at most as many
  markers as the limit of its style (40 without wrap and 80 with it for classic, 20 for ghost,
  60 for echo, 100 for stepped, 30 for glitch). For the classic style every tail marker has
  the opacity \<open>max 0 (0.4 * (1 - k / limit))\<close> of its \<open>k\<close>, above the cutoff 0.01, and the
  opacities strictly decrease along the tail.
\<close>

theorem tail_count_and_classic_opacity:
  "length (tl (stepData p)) \<le> limit_of p
   \<and> limit_of p =
       (case tailType p of
          classic \<Rightarrow> if effectiveWrap p then 80 else 40
        | ghost \<Rightarrow> 20 | echo \<Rightarrow> 60 | stepped \<Rightarrow> 100 | glitch \<Rightarrow> 30)
   \<and> (tailType p = classic \<longrightarrow>
        sorted_wrt (\<lambda>a b. js_lt (opacity b) (opacity a)) (tl (stepData p))
        \<and> (\<forall>m \<in> set (tl (stepData p)).
              \<exists>k. 1 \<le> k \<and> k \<le> limit_of p
                \<and> opacity m = Fin (max 0 (4 / 10 * (1 - real k / real (limit_of p))))
                \<and> 1 / 100 < max 0 (4 / 10 * (1 - real k / real (limit_of p)))))"
proof (intro conjI impI)
  show "length (tl (stepData p)) \<le> limit_of p"
    using tailLoop_length [of p 1] by (simp add: stepData_def)
  show "limit_of p =
       (case tailType p of
          classic \<Rightarrow> if effectiveWrap p then 80 else 40
        | ghost \<Rightarrow> 20 | echo \<Rightarrow> 60 | stepped \<Rightarrow> 100 | glitch \<Rightarrow> 30)"
    by (cases "tailType p") (simp_all add: limit_of_def)
next
  assume c: "tailType p = classic"
  then show "sorted_wrt (\<lambda>a b. js_lt (opacity b) (opacity a)) (tl (stepData p))"
    by (simp add: stepData_def classic_tailLoop_sorted)
  show "\<forall>m \<in> set (tl (stepData p)).
              \<exists>k. 1 \<le> k \<and> k \<le> limit_of p
                \<and> opacity m = Fin (max 0 (4 / 10 * (1 - real k / real (limit_of p))))
                \<and> 1 / 100 < max 0 (4 / 10 * (1 - real k / real (limit_of p)))"
  proof
    fix m assume "m \<in> set (tl (stepData p))"
    then have "m \<in> set (tailLoop p 1)"
      by (simp add: stepData_def split: if_splits)
    from tailLoop_members [OF this] obtain j where j: "1 \<le> j" "j \<le> limit_of p"
      "js_gt (tailOpacity p j) (Fin (1 / 100))" "m = tailMarker p j"
      by blast
    with c show "\<exists>k. 1 \<le> k \<and> k \<le> limit_of p
                \<and> opacity m = Fin (max 0 (4 / 10 * (1 - real k / real (limit_of p))))
                \<and> 1 / 100 < max 0 (4 / 10 * (1 - real k / real (limit_of p)))"
      by (intro exI [of _ j]) (simp add: tailMarker_def classic_tailOpacity)
  qed
qed

theorem tail_count_and_classic_opacity_witness:
  "tailType \<lparr>movementValue = Fin 1, currentStep = Fin 2, itemSize = Fin 10,
       wrapWidth = Fin 100, shouldWrap = False, isTailEnabled = True, isFollowEnabled = True,
       tailType = classic, focusX = Fin 20, viewportWidth = Fin 100\<rparr> = classic
   \<and> map opacity (tl (stepData \<lparr>movementValue = Fin 1, currentStep = Fin 2,
       itemSize = Fin 10, wrapWidth = Fin 100, shouldWrap = False, isTailEnabled = True,
       isFollowEnabled = True, tailType = classic, focusX = Fin 20,
       viewportWidth = Fin 100\<rparr>)) = [Fin (39 / 100), Fin (38 / 100)]
   \<and> sorted_wrt (\<lambda>a b. js_lt (opacity b) (opacity a))
       (tl (stepData \<lparr>movementValue = Fin 1, currentStep = Fin 2,
       itemSize = Fin 10, wrapWidth = Fin 100, shouldWrap = False, isTailEnabled = True,
       isFollowEnabled = True, tailType = classic, focusX = Fin 20,
       viewportWidth = Fin 100\<rparr>))
   \<and> length (tl (stepData \<lparr>movementValue = Fin 1, currentStep = Fin 2,
       itemSize = Fin 10, wrapWidth = Fin 100, shouldWrap = False, isTailEnabled = True,
       isFollowEnabled = True, tailType = classic, focusX = Fin 20,
       viewportWidth = Fin 100\<rparr>)) \<le> 40"
proof -
  let ?p = "\<lparr>movementValue = Fin 1, currentStep = Fin 2, itemSize = Fin 10,
       wrapWidth = Fin 100, shouldWrap = False, isTailEnabled = True, isFollowEnabled = True,
       tailType = classic, focusX = Fin 20, viewportWidth = Fin 100\<rparr>"
  have e: "stepData ?p
    = [\<lparr>pos_x = Fin 45, isHead = True, opacity = Fin 1, scale = None\<rparr>,
       \<lparr>pos_x = Fin 35, isHead = False, opacity = Fin (39 / 100), scale = Some (Fin 1)\<rparr>,
       \<lparr>pos_x = Fin 25, isHead = False, opacity = Fin (38 / 100), scale = Some (Fin 1)\<rparr>]"
    unfolding stepData_def
    apply (subst tailLoop_unfold)
    apply (subst tailLoop_unfold)
    apply (subst tailLoop_unfold)
    apply (simp add: row_defs)
    done
  from tail_count_and_classic_opacity [of ?p] show ?thesis
    by (simp add: e limit_of_def effectiveWrap_def)
qed


section \<open>Positions in wrapped mode\<close>

text \<open>Bounds on \<open>pi\<close>, for the sign of the jitter at one input.\<close>

lemma pi_ge_3: "3 \<le> pi"
proof -
  have "sin (pi / 6) \<le> pi / 6"
    by (rule sin_x_le_x) simp
  then show ?thesis
    by (simp add: sin_30)
qed

lemma pi_less_23_6: "pi < 23 / 6"
proof (rule ccontr)
  assume "\<not> pi < 23 / 6"
  then have lo: "23 / 36 \<le> pi / 6" by simp
  have hi: "pi / 6 \<le> 2 / 3" using pi_less_4 by simp
  have nn: "0 \<le> pi / 6" by simp
  define y where "y = pi / 6"
  have b: "\<bar>sin y - (\<Sum>m<5. sin_coeff m * y ^ m)\<bar> \<le> inverse (fact 5) * \<bar>y\<bar> ^ 5"
    by (rule Maclaurin_sin_bound)
  have s: "(\<Sum>m<5. sin_coeff m * y ^ m) = y - y ^ 3 / 6"
    by (simp add: sin_coeff_def lessThan_nat_numeral lessThan_Suc fact_numeral)
  have y0: "0 \<le> y" by (simp add: y_def)
  have sy: "sin y = 1 / 2" by (simp add: y_def sin_30)
  have "inverse (fact 5) * \<bar>y\<bar> ^ 5 = y ^ 5 / 120"
    using y0 by (simp add: fact_numeral)
  with b s sy have "\<bar>1 / 2 - (y - y ^ 3 / 6)\<bar> \<le> y ^ 5 / 120"
    by simp
  then have "y - y ^ 3 / 6 - y ^ 5 / 120 \<le> 1 / 2"
    by linarith
  moreover have "y ^ 3 \<le> (2 / 3) ^ 3"
    using hi y0 unfolding y_def by (intro power_mono) simp_all
  moreover have "y ^ 5 \<le> (2 / 3) ^ 5"
    using hi y0 unfolding y_def by (intro power_mono) simp_all
  moreover have "(2 / 3 :: real) ^ 3 = 8 / 27" "(2 / 3 :: real) ^ 5 = 32 / 243"
    by (simp_all add: power_divide)
  moreover have "23 / 36 \<le> y" using lo by (simp add: y_def)
  ultimately show False
    by linarith
qed

lemma sin_23_2_neg: "sin (23 / 2 :: real) < 0"
proof -
  have "sin (23 / 2 - 2 * pi) < 0"
    using pi_ge_3 pi_less_23_6 by (intro sin_lt_zero) simp_all
  moreover have "sin (23 / 2 - 2 * pi + 2 * pi) = sin (23 / 2 - 2 * pi)"
    by (rule sin_periodic)
  ultimately show ?thesis by simp
qed

text \<open>
  Claim C3, as the code has it. In wrapped mode, with a step value of at least 0, a rate of
  at least 1, a positive lane size and a finite wrap width, the quantized wrap width \<open>q\<close> is
  positive, the head marker of every tail type and every tail marker of every type but
  glitch lie in \<open>[0, q)\<close>, and a glitch tail marker, moved by its jitter of at most 4, lies
  in \<open>[-4, q + 4)\<close>.
\<close>

theorem wrapped_positions_in_range:
  assumes wrap: "effectiveWrap p"
    and N: "currentStep p = Fin N" "0 \<le> N"
    and v: "movementValue p = Fin v" "1 \<le> v"
    and u: "itemSize p = Fin u" "0 < u"
    and w: "wrapWidth p = Fin w"
  shows "\<exists>q. 0 < q \<and> quantizedWrapWidth p = Fin q
    \<and> (\<forall>m \<in> set (stepData p).
          \<exists>x. pos_x m = Fin x \<and> - 4 \<le> x \<and> x < q + 4
            \<and> (isHead m \<or> tailType p \<noteq> glitch \<longrightarrow> 0 \<le> x \<and> x < q))"
proof -
  define q where "q = max (real_of_int \<lfloor>w / u\<rfloor>) 1 * u"
  define a where "a = of_int \<lfloor>N / v\<rfloor> + ease_at ((of_int \<lfloor>N / v\<rfloor> + 1) * v - N)"
  have "0 < max (real_of_int \<lfloor>w / u\<rfloor>) 1"
    by (simp add: less_max_iff_disj)
  then have q0: "0 < q"
    using u(2) by (simp add: q_def)
  have qw: "quantizedWrapWidth p = Fin q"
    using u w by (simp add: quantizedWrapWidth_Fin q_def)
  have "v \<noteq> 0"
    using v(2) by simp
  then have anim: "animatedTriggerCount (currentStep p) (movementValue p) = Fin a"
    by (simp add: N v animatedTriggerCount_Fin a_def)
  have a0: "0 \<le> a"
    unfolding a_def using N(2) v(2) by (intro animated_nonneg) simp_all
  have step: "unitStepInPixels p = Fin (v * u)"
    by (simp add: unitStepInPixels_def v u)
  have vu: "0 \<le> v * u"
    using v(2) u(2) by simp
  have wrapped: "\<exists>r. getRelativeX p (Fin d) = Fin r \<and> 0 \<le> r \<and> r < q" if "0 \<le> d" for d
    using js_rem_range [OF that q0] by (simp add: getRelativeX_def wrap qw)
  have hd_ok: "\<exists>x. pos_x (headMarker p) = Fin x \<and> 0 \<le> x \<and> x < q"
    using wrapped [of "a * (v * u)"] a0 vu
    by (simp add: headMarker_def headAbsoluteDisplacement_def anim step)
  have tail_ok: "\<exists>x. pos_x (tailMarker p j) = Fin x \<and> - 4 \<le> x \<and> x < q + 4
      \<and> (tailType p \<noteq> glitch \<longrightarrow> 0 \<le> x \<and> x < q)"
    if "\<not> js_lt (tailTriggerIndex p j) (Fin 0)" for j
  proof -
    from that have "0 \<le> a - real j"
      by (simp add: tailTriggerIndex_def anim)
    then have "0 \<le> (a - real j) * (v * u)"
      using vu by simp
    from wrapped [OF this] obtain r where
      r: "getRelativeX p (tailAbsoluteDisp p j) = Fin r" "0 \<le> r" "r < q"
      by (auto simp: tailAbsoluteDisp_def tailTriggerIndex_def anim step)
    show ?thesis
    proof (cases "tailType p = glitch")
      case False
      with r show ?thesis
        by (simp add: tailMarker_def tailX_def Let_def)
    next
      case True
      define s where "s = sin (real j * (15 / 10) + N * 5)"
      have sb: "- 1 \<le> s" "s \<le> 1"
        by (simp_all add: s_def)
      have "pos_x (tailMarker p j) = Fin (r + s * 4)"
        using True r(1) by (simp add: tailMarker_def tailX_def Let_def N s_def)
      moreover have "- 4 \<le> r + s * 4" "r + s * 4 < q + 4"
        using sb r(2,3) by linarith+
      ultimately show ?thesis
        using True by simp
    qed
  qed
  have "\<exists>x. pos_x m = Fin x \<and> - 4 \<le> x \<and> x < q + 4
            \<and> (isHead m \<or> tailType p \<noteq> glitch \<longrightarrow> 0 \<le> x \<and> x < q)"
    if "m \<in> set (stepData p)" for m
  proof -
    from that consider "m = headMarker p" | "m \<in> set (tailLoop p 1)"
      by (auto simp: stepData_def split: if_splits)
    then show ?thesis
    proof cases
      case 1
      with hd_ok q0 show ?thesis
        by auto
    next
      case 2
      from tailLoop_members [OF this] obtain j where
        j: "\<not> js_lt (tailTriggerIndex p j) (Fin 0)" "m = tailMarker p j"
        by blast
      from tail_ok [OF j(1)] j(2) show ?thesis
        by (auto simp: tailMarker_def)
    qed
  qed
  with q0 qw show ?thesis
    by blast
qed

theorem wrapped_positions_in_range_witness:
  "effectiveWrap \<lparr>movementValue = Fin 1, currentStep = Fin 2, itemSize = Fin 10,
       wrapWidth = Fin 100, shouldWrap = True, isTailEnabled = True, isFollowEnabled = False,
       tailType = classic, focusX = Fin 0, viewportWidth = Fin 100\<rparr>
   \<and> (0::real) \<le> 2 \<and> (1::real) \<le> 1 \<and> (0::real) < 10
   \<and> map pos_x (stepData \<lparr>movementValue = Fin 1, currentStep = Fin 2, itemSize = Fin 10,
       wrapWidth = Fin 100, shouldWrap = True, isTailEnabled = True, isFollowEnabled = False,
       tailType = classic, focusX = Fin 0, viewportWidth = Fin 100\<rparr>)
     = [Fin 20, Fin 10, Fin 0]
   \<and> (\<exists>q. quantizedWrapWidth \<lparr>movementValue = Fin 1, currentStep = Fin 2,
       itemSize = Fin 10, wrapWidth = Fin 100, shouldWrap = True, isTailEnabled = True,
       isFollowEnabled = False, tailType = classic, focusX = Fin 0,
       viewportWidth = Fin 100\<rparr> = Fin q
     \<and> (\<exists>x. pos_x (hd (stepData \<lparr>movementValue = Fin 1, currentStep = Fin 2,
       itemSize = Fin 10, wrapWidth = Fin 100, shouldWrap = True, isTailEnabled = True,
       isFollowEnabled = False, tailType = classic, focusX = Fin 0,
       viewportWidth = Fin 100\<rparr>)) = Fin x \<and> 0 \<le> x \<and> x < q))"
proof -
  let ?p = "\<lparr>movementValue = Fin 1, currentStep = Fin 2, itemSize = Fin 10,
       wrapWidth = Fin 100, shouldWrap = True, isTailEnabled = True, isFollowEnabled = False,
       tailType = classic, focusX = Fin 0, viewportWidth = Fin 100\<rparr>"
  have e: "stepData ?p
    = [\<lparr>pos_x = Fin 20, isHead = True, opacity = Fin 1, scale = None\<rparr>,
       \<lparr>pos_x = Fin 10, isHead = False, opacity = Fin (79 / 200), scale = Some (Fin 1)\<rparr>,
       \<lparr>pos_x = Fin 0, isHead = False, opacity = Fin (39 / 100), scale = Some (Fin 1)\<rparr>]"
    unfolding stepData_def
    apply (subst tailLoop_unfold)
    apply (subst tailLoop_unfold)
    apply (subst tailLoop_unfold)
    apply (simp add: row_defs trunc_def)
    done
  have w: "effectiveWrap ?p"
    by (simp add: effectiveWrap_def)
  from wrapped_positions_in_range [of ?p 2 1 10 100] w
  obtain q where "quantizedWrapWidth ?p = Fin q"
    "\<forall>m \<in> set (stepData ?p). \<exists>x. pos_x m = Fin x \<and> - 4 \<le> x \<and> x < q + 4
        \<and> (isHead m \<or> tailType ?p \<noteq> glitch \<longrightarrow> 0 \<le> x \<and> x < q)"
    by auto
  then have "\<exists>q. quantizedWrapWidth ?p = Fin q
      \<and> (\<exists>x. pos_x (hd (stepData ?p)) = Fin x \<and> 0 \<le> x \<and> x < q)"
    by (auto simp: e)
  with w e show ?thesis
    by simp
qed

text \<open>
  The claim as stated fails for the glitch style: at step 2 with rate 2 the first tail marker
  wraps to 0 and its jitter \<open>4 * sin 11.5\<close> is negative.
\<close>

theorem glitch_position_counterexample:
  "quantizedWrapWidth \<lparr>movementValue = Fin 2, currentStep = Fin 2, itemSize = Fin 10,
       wrapWidth = Fin 100, shouldWrap = True, isTailEnabled = True, isFollowEnabled = False,
       tailType = glitch, focusX = Fin 0, viewportWidth = Fin 100\<rparr> = Fin 100
   \<and> stepData \<lparr>movementValue = Fin 2, currentStep = Fin 2, itemSize = Fin 10,
       wrapWidth = Fin 100, shouldWrap = True, isTailEnabled = True, isFollowEnabled = False,
       tailType = glitch, focusX = Fin 0, viewportWidth = Fin 100\<rparr>
     = [\<lparr>pos_x = Fin 20, isHead = True, opacity = Fin 1, scale = None\<rparr>,
        \<lparr>pos_x = Fin (sin (23 / 2) * 4), isHead = False, opacity = Fin (29 / 75),
          scale = Some (Fin 1)\<rparr>]
   \<and> sin (23 / 2) * 4 < (0::real)"
proof -
  have "stepData \<lparr>movementValue = Fin 2, currentStep = Fin 2, itemSize = Fin 10,
       wrapWidth = Fin 100, shouldWrap = True, isTailEnabled = True, isFollowEnabled = False,
       tailType = glitch, focusX = Fin 0, viewportWidth = Fin 100\<rparr>
     = [\<lparr>pos_x = Fin 20, isHead = True, opacity = Fin 1, scale = None\<rparr>,
        \<lparr>pos_x = Fin (sin (23 / 2) * 4), isHead = False, opacity = Fin (29 / 75),
          scale = Some (Fin 1)\<rparr>]"
    unfolding stepData_def
    apply (subst tailLoop_unfold)
    apply (subst tailLoop_unfold)
    apply (simp add: row_defs trunc_def)
    done
  then show ?thesis
    using sin_23_2_neg by (simp add: quantizedWrapWidth_def)
qed


section \<open>The controls\<close>

text \<open>
  Claim C7. From every state, the play/pause control leaves a mode other than manual for
  manual with \<open>isPlaying\<close> false, so that the next animation frame does not move the step
  value; in manual mode it toggles \<open>isPlaying\<close>. The step value itself is not touched.
\<close>

theorem handlePlayPause_spec:
  "(st_syncMode s \<noteq> manual \<longrightarrow>
      st_syncMode (handlePlayPause s) = manual \<and> \<not> st_isPlaying (handlePlayPause s)
      \<and> st_currentStep (handlePlayPause s) = st_currentStep s
      \<and> st_currentStep (animate time now (handlePlayPause s)) = st_currentStep s)
   \<and> (st_syncMode s = manual \<longrightarrow>
      st_syncMode (handlePlayPause s) = manual
      \<and> st_isPlaying (handlePlayPause s) = (\<not> st_isPlaying s)
      \<and> st_currentStep (handlePlayPause s) = st_currentStep s)"
  by (simp add: handlePlayPause_def animate_def split: option.split)

theorem handlePlayPause_spec_witness:
  "st_syncMode \<lparr>st_currentStep = Fin 7, st_isPlaying = True, st_shouldWrap = True,
       st_isTailEnabled = True, st_tailType = classic, st_isFollowEnabled = True,
       st_speedMultiplier = Fin (1 / 100), st_rowCount = 15, st_syncMode = seconds,
       st_lastTime = Some (Fin 16), st_height = Fin 800, st_width = Fin 1200\<rparr> \<noteq> manual
   \<and> handlePlayPause \<lparr>st_currentStep = Fin 7, st_isPlaying = True, st_shouldWrap = True,
       st_isTailEnabled = True, st_tailType = classic, st_isFollowEnabled = True,
       st_speedMultiplier = Fin (1 / 100), st_rowCount = 15, st_syncMode = seconds,
       st_lastTime = Some (Fin 16), st_height = Fin 800, st_width = Fin 1200\<rparr>
     = \<lparr>st_currentStep = Fin 7, st_isPlaying = False, st_shouldWrap = True,
       st_isTailEnabled = True, st_tailType = classic, st_isFollowEnabled = True,
       st_speedMultiplier = Fin (1 / 100), st_rowCount = 15, st_syncMode = manual,
       st_lastTime = Some (Fin 16), st_height = Fin 800, st_width = Fin 1200\<rparr>
   \<and> st_syncMode \<lparr>st_currentStep = Fin 7, st_isPlaying = False, st_shouldWrap = True,
       st_isTailEnabled = True, st_tailType = classic, st_isFollowEnabled = True,
       st_speedMultiplier = Fin (1 / 100), st_rowCount = 15, st_syncMode = manual,
       st_lastTime = None, st_height = Fin 800, st_width = Fin 1200\<rparr> = manual
   \<and> st_isPlaying (handlePlayPause \<lparr>st_currentStep = Fin 7, st_isPlaying = False,
       st_shouldWrap = True, st_isTailEnabled = True, st_tailType = classic,
       st_isFollowEnabled = True, st_speedMultiplier = Fin (1 / 100), st_rowCount = 15,
       st_syncMode = manual, st_lastTime = None, st_height = Fin 800,
       st_width = Fin 1200\<rparr>)"
  using handlePlayPause_spec [of "\<lparr>st_currentStep = Fin 7, st_isPlaying = True,
       st_shouldWrap = True, st_isTailEnabled = True, st_tailType = classic,
       st_isFollowEnabled = True, st_speedMultiplier = Fin (1 / 100), st_rowCount = 15,
       st_syncMode = seconds, st_lastTime = Some (Fin 16), st_height = Fin 800,
       st_width = Fin 1200\<rparr>" "Fin 32" "Fin 1000"]
    handlePlayPause_spec [of "\<lparr>st_currentStep = Fin 7, st_isPlaying = False,
       st_shouldWrap = True, st_isTailEnabled = True, st_tailType = classic,
       st_isFollowEnabled = True, st_speedMultiplier = Fin (1 / 100), st_rowCount = 15,
       st_syncMode = manual, st_lastTime = None, st_height = Fin 800,
       st_width = Fin 1200\<rparr>" "Fin 32" "Fin 1000"]
  by (simp add: handlePlayPause_def)


section \<open>The frame\<close>

text \<open>
  Claim C5. With follow switched on, a finite step value (an integer in particular), a
  finite window and a row count other than \<open>-1\<close>, the focus is the head displacement of the
  leader row itself, and the position of the leader's head marker is exactly half the window
  width minus half the lane size.
\<close>

theorem leader_centred_when_following:
  assumes "st_isFollowEnabled s" and "st_currentStep s = Fin N" and "st_width s = Fin w"
    and "st_height s = Fin h" and "st_rowCount s \<noteq> - 1"
  shows "app_focusX s = headAbsoluteDisplacement (rowProps s (Fin 1))
    \<and> actualItemSize s = Fin (h / real_of_int (st_rowCount s + 1))
    \<and> pos_x (hd (hd (frameRows s))) = Fin (w / 2 - h / real_of_int (st_rowCount s + 1) / 2)"
proof -
  have u: "actualItemSize s = Fin (h / real_of_int (st_rowCount s + 1))"
    using assms(4,5) by (simp add: actualItemSize_def totalSlots_def)
  obtain a where a: "animatedTriggerCount (Fin N) (Fin 1) = Fin a"
    by (simp add: animatedTriggerCount_Fin)
  have f: "app_focusX s = headAbsoluteDisplacement (rowProps s (Fin 1))"
    by (simp add: app_focusX_def assms(1) leaderXOffset_eq headAbsoluteDisplacement_def
        rowProps_def unitStepInPixels_def)
  have hd: "hd (hd (frameRows s)) = headMarker (rowProps s (Fin 1))"
    by (simp add: frameRows_def stepData_def)
  have x: "pos_x (headMarker (rowProps s (Fin 1))) =
      Fin (w / 2 - h / real_of_int (st_rowCount s + 1) / 2)"
    by (simp add: headMarker_def getRelativeX_def effectiveWrap_def assms(1)
        headAbsoluteDisplacement_def unitStepInPixels_def rowProps_def app_focusX_def
        leaderXOffset_eq assms(2,3) u a)
  show ?thesis
    using f hd x u by simp
qed

theorem leader_centred_when_following_witness:
  "st_isFollowEnabled \<lparr>st_currentStep = Fin 7, st_isPlaying = True, st_shouldWrap = True,
       st_isTailEnabled = True, st_tailType = classic, st_isFollowEnabled = True,
       st_speedMultiplier = Fin (1 / 100), st_rowCount = 15, st_syncMode = manual,
       st_lastTime = None, st_height = Fin 800, st_width = Fin 1200\<rparr>
   \<and> (15::int) \<noteq> - 1
   \<and> pos_x (hd (hd (frameRows \<lparr>st_currentStep = Fin 7, st_isPlaying = True,
       st_shouldWrap = True, st_isTailEnabled = True, st_tailType = classic,
       st_isFollowEnabled = True, st_speedMultiplier = Fin (1 / 100), st_rowCount = 15,
       st_syncMode = manual, st_lastTime = None, st_height = Fin 800,
       st_width = Fin 1200\<rparr>))) = Fin 575"
  using leader_centred_when_following [of "\<lparr>st_currentStep = Fin 7, st_isPlaying = True,
       st_shouldWrap = True, st_isTailEnabled = True, st_tailType = classic,
       st_isFollowEnabled = True, st_speedMultiplier = Fin (1 / 100), st_rowCount = 15,
       st_syncMode = manual, st_lastTime = None, st_height = Fin 800,
       st_width = Fin 1200\<rparr>" 7 1200 800]
  by simp

text \<open>
  Claim C8, as the code has it. A row count that is not positive gives no follower rows, and
  the frame still holds the leader row, which \<open>App\<close> renders whatever the row count is, with
  its head marker: the row set is not empty.
\<close>

theorem no_rows_keeps_leader:
  "st_rowCount s \<le> 0 \<Longrightarrow>
   followerRows s = [] \<and> frameRows s = [stepData (rowProps s (Fin 1))]
   \<and> frameRows s \<noteq> [] \<and> hd (frameRows s) \<noteq> []
   \<and> isHead (hd (hd (frameRows s)))"
  by (simp add: followerRows_def frameRows_def stepData_def headMarker_def)

theorem no_rows_keeps_leader_witness:
  "st_rowCount \<lparr>st_currentStep = Fin 7, st_isPlaying = True, st_shouldWrap = True,
       st_isTailEnabled = True, st_tailType = classic, st_isFollowEnabled = True,
       st_speedMultiplier = Fin (1 / 100), st_rowCount = 0, st_syncMode = manual,
       st_lastTime = None, st_height = Fin 800, st_width = Fin 1200\<rparr> \<le> 0
   \<and> followerRows \<lparr>st_currentStep = Fin 7, st_isPlaying = True, st_shouldWrap = True,
       st_isTailEnabled = True, st_tailType = classic, st_isFollowEnabled = True,
       st_speedMultiplier = Fin (1 / 100), st_rowCount = 0, st_syncMode = manual,
       st_lastTime = None, st_height = Fin 800, st_width = Fin 1200\<rparr> = []
   \<and> isHead (hd (hd (frameRows \<lparr>st_currentStep = Fin 7, st_isPlaying = True,
       st_shouldWrap = True, st_isTailEnabled = True, st_tailType = classic,
       st_isFollowEnabled = True, st_speedMultiplier = Fin (1 / 100), st_rowCount = 0,
       st_syncMode = manual, st_lastTime = None, st_height = Fin 800,
       st_width = Fin 1200\<rparr>)))"
  using no_rows_keeps_leader [of "\<lparr>st_currentStep = Fin 7, st_isPlaying = True,
       st_shouldWrap = True, st_isTailEnabled = True, st_tailType = classic,
       st_isFollowEnabled = True, st_speedMultiplier = Fin (1 / 100), st_rowCount = 0,
       st_syncMode = manual, st_lastTime = None, st_height = Fin 800,
       st_width = Fin 1200\<rparr>"]
  by auto

text \<open>
  The claim as stated fails: with row count 0 the frame has one row, and that row has
  a marker.
\<close>

theorem no_rows_counterexample:
  "length (frameRows \<lparr>st_currentStep = Fin 7, st_isPlaying = True, st_shouldWrap = True,
       st_isTailEnabled = True, st_tailType = classic, st_isFollowEnabled = True,
       st_speedMultiplier = Fin (1 / 100), st_rowCount = 0, st_syncMode = manual,
       st_lastTime = None, st_height = Fin 800, st_width = Fin 1200\<rparr>) = 1
   \<and> hd (frameRows \<lparr>st_currentStep = Fin 7, st_isPlaying = True, st_shouldWrap = True,
       st_isTailEnabled = True, st_tailType = classic, st_isFollowEnabled = True,
       st_speedMultiplier = Fin (1 / 100), st_rowCount = 0, st_syncMode = manual,
       st_lastTime = None, st_height = Fin 800, st_width = Fin 1200\<rparr>) \<noteq> []"
  by (simp add: frameRows_def followerRows_def stepData_def)

text \<open>
  Claim C4, as the code has it. Every row \<open>App\<close> renders has a rate of at least 1, so the
  division in \<open>stepData\<close> does not meet a zero there. \<open>stepData\<close> itself has no guard: given
  the rate 0 it divides by it, and the row is not skipped but starts with a head marker
  whose position is not a number.
\<close>

theorem zero_rate_not_skipped:
  "(\<forall>v \<in> set (rowMovementValues s). 1 \<le> v)
   \<and> frameRows s = map (\<lambda>v. stepData (rowProps s (Fin (of_int v)))) (rowMovementValues s)
   \<and> (movementValue p = Fin 0 \<longrightarrow>
        stepData p \<noteq> []
        \<and> hd (stepData p) = \<lparr>pos_x = NaN, isHead = True, opacity = Fin 1, scale = None\<rparr>)"
  by (auto simp: rowMovementValues_def followerRows_def frameRows_def stepData_def
      headMarker_def zero_rate_head getRelativeX_NaN)

theorem zero_rate_not_skipped_witness:
  "(1::int) \<le> 1 \<and> (1::int) \<le> 2 \<and> (1::int) \<le> 3
   \<and> rowMovementValues \<lparr>st_currentStep = Fin 7, st_isPlaying = True, st_shouldWrap = True,
       st_isTailEnabled = True, st_tailType = classic, st_isFollowEnabled = True,
       st_speedMultiplier = Fin (1 / 100), st_rowCount = 2, st_syncMode = manual,
       st_lastTime = None, st_height = Fin 800, st_width = Fin 1200\<rparr> = [1, 2, 3]
   \<and> movementValue \<lparr>movementValue = Fin 0, currentStep = Fin 3, itemSize = Fin 10,
       wrapWidth = Fin 100, shouldWrap = True, isTailEnabled = True, isFollowEnabled = False,
       tailType = classic, focusX = Fin 0, viewportWidth = Fin 100\<rparr> = Fin 0
   \<and> hd (stepData \<lparr>movementValue = Fin 0, currentStep = Fin 3, itemSize = Fin 10,
       wrapWidth = Fin 100, shouldWrap = True, isTailEnabled = True, isFollowEnabled = False,
       tailType = classic, focusX = Fin 0, viewportWidth = Fin 100\<rparr>)
     = \<lparr>pos_x = NaN, isHead = True, opacity = Fin 1, scale = None\<rparr>"
  using zero_rate_not_skipped [of "\<lparr>st_currentStep = Fin 7, st_isPlaying = True,
       st_shouldWrap = True, st_isTailEnabled = True, st_tailType = classic,
       st_isFollowEnabled = True, st_speedMultiplier = Fin (1 / 100), st_rowCount = 2,
       st_syncMode = manual, st_lastTime = None, st_height = Fin 800,
       st_width = Fin 1200\<rparr>"
     "\<lparr>movementValue = Fin 0, currentStep = Fin 3, itemSize = Fin 10,
       wrapWidth = Fin 100, shouldWrap = True, isTailEnabled = True, isFollowEnabled = False,
       tailType = classic, focusX = Fin 0, viewportWidth = Fin 100\<rparr>"]
  by (simp add: rowMovementValues_def followerRows_def upt_rec)

text \<open>
  The claim as stated fails: a row with rate 0 at step 3 yields a marker.
\<close>

theorem zero_rate_counterexample:
  "stepData \<lparr>movementValue = Fin 0, currentStep = Fin 3, itemSize = Fin 10,
       wrapWidth = Fin 100, shouldWrap = True, isTailEnabled = False, isFollowEnabled = False,
       tailType = classic, focusX = Fin 0, viewportWidth = Fin 100\<rparr>
   = [\<lparr>pos_x = NaN, isHead = True, opacity = Fin 1, scale = None\<rparr>]"
  by (simp add: row_defs js_sub_def inf_signed_def)

text \<open>
  Claim C9, as the code has it. The step value is not clamped: when it is not finite, no
  marker of the row has a finite position, whereas the step value 0, with a finite
  configuration and a rate of at least 1, gives the head marker alone at a finite position.
  Nor does the clock clamp: in manual mode a step value that is not finite stays so over an
  animation frame and reaches the rows as it is.
\<close>

theorem nonfinite_step_propagates:
  "(\<not> is_finite (currentStep p) \<longrightarrow> (\<forall>m \<in> set (stepData p). \<not> is_finite (pos_x m)))
   \<and> (movementValue p = Fin v \<and> 1 \<le> v \<and> itemSize p = Fin u \<and> u \<noteq> 0
        \<and> wrapWidth p = Fin w \<and> focusX p = Fin f \<and> viewportWidth p = Fin vw \<longrightarrow>
      stepData (p\<lparr>currentStep := Fin 0\<rparr>) =
        [\<lparr>pos_x = Fin (if effectiveWrap p then 0 else 0 - f + vw / 2 - u / 2),
          isHead = True, opacity = Fin 1, scale = None\<rparr>])
   \<and> (\<not> is_finite (st_currentStep s) \<and> st_syncMode s = manual \<longrightarrow>
        \<not> is_finite (st_currentStep (animate time now s))
        \<and> currentStep (rowProps (animate time now s) mv) = st_currentStep (animate time now s))"
proof (intro conjI impI ballI)
  fix m
  assume n: "\<not> is_finite (currentStep p)" and "m \<in> set (stepData p)"
  then consider "m = headMarker p" | "m \<in> set (tailLoop p 1)"
    by (auto simp: stepData_def split: if_splits)
  then show "\<not> is_finite (pos_x m)"
  proof cases
    case 1
    with n show ?thesis
      by (simp add: headMarker_def getRelativeX_not_finite headAbsoluteDisplacement_not_finite)
  next
    case 2
    from tailLoop_members [OF this] obtain j where "m = tailMarker p j"
      by blast
    with n show ?thesis
      by (simp add: tailMarker_def tailX_not_finite)
  qed
next
  assume "movementValue p = Fin v \<and> 1 \<le> v \<and> itemSize p = Fin u \<and> u \<noteq> 0
        \<and> wrapWidth p = Fin w \<and> focusX p = Fin f \<and> viewportWidth p = Fin vw"
  then show "stepData (p\<lparr>currentStep := Fin 0\<rparr>) =
        [\<lparr>pos_x = Fin (if effectiveWrap p then 0 else 0 - f + vw / 2 - u / 2),
          isHead = True, opacity = Fin 1, scale = None\<rparr>]"
    using stepData_at_zero [of "p\<lparr>currentStep := Fin 0\<rparr>" v u w f vw]
    by (simp add: effectiveWrap_def)
next
  assume "\<not> is_finite (st_currentStep s) \<and> st_syncMode s = manual"
  then show "\<not> is_finite (st_currentStep (animate time now s))"
    by (simp add: animate_def js_add_not_finite1 split: option.split)
next
  show "currentStep (rowProps (animate time now s) mv) = st_currentStep (animate time now s)"
    by (simp add: rowProps_def)
qed

theorem nonfinite_step_propagates_witness:
  "\<not> is_finite (currentStep \<lparr>movementValue = Fin 1, currentStep = NaN, itemSize = Fin 10,
       wrapWidth = Fin 100, shouldWrap = True, isTailEnabled = False, isFollowEnabled = False,
       tailType = classic, focusX = Fin 0, viewportWidth = Fin 100\<rparr>)
   \<and> (1::real) \<le> 1 \<and> (10::real) \<noteq> 0
   \<and> \<not> is_finite (pos_x (hd (stepData \<lparr>movementValue = Fin 1, currentStep = NaN,
       itemSize = Fin 10, wrapWidth = Fin 100, shouldWrap = True, isTailEnabled = False,
       isFollowEnabled = False, tailType = classic, focusX = Fin 0,
       viewportWidth = Fin 100\<rparr>)))
   \<and> stepData \<lparr>movementValue = Fin 1, currentStep = Fin 0,
       itemSize = Fin 10, wrapWidth = Fin 100, shouldWrap = True, isTailEnabled = False,
       isFollowEnabled = False, tailType = classic, focusX = Fin 0,
       viewportWidth = Fin 100\<rparr>
     = [\<lparr>pos_x = Fin 0, isHead = True, opacity = Fin 1, scale = None\<rparr>]
   \<and> st_currentStep (animate (Fin 32) (Fin 1000)
       \<lparr>st_currentStep = NaN, st_isPlaying = True, st_shouldWrap = True,
       st_isTailEnabled = True, st_tailType = classic, st_isFollowEnabled = True,
       st_speedMultiplier = Fin (1 / 100), st_rowCount = 15, st_syncMode = manual,
       st_lastTime = Some (Fin 16), st_height = Fin 800, st_width = Fin 1200\<rparr>) = NaN"
  using nonfinite_step_propagates [of "\<lparr>movementValue = Fin 1, currentStep = NaN,
       itemSize = Fin 10, wrapWidth = Fin 100, shouldWrap = True, isTailEnabled = False,
       isFollowEnabled = False, tailType = classic, focusX = Fin 0,
       viewportWidth = Fin 100\<rparr>" 1 10 100 0 100
       "\<lparr>st_currentStep = NaN, st_isPlaying = True, st_shouldWrap = True,
       st_isTailEnabled = True, st_tailType = classic, st_isFollowEnabled = True,
       st_speedMultiplier = Fin (1 / 100), st_rowCount = 15, st_syncMode = manual,
       st_lastTime = Some (Fin 16), st_height = Fin 800, st_width = Fin 1200\<rparr>"
       "Fin 32" "Fin 1000" "Fin 1"]
  by (simp add: stepData_def effectiveWrap_def animate_def)

text \<open>
  The claim as stated fails: a step value that is not a number gives a position that is not
  a number, not the position of step 0.
\<close>

theorem nonfinite_step_counterexample:
  "map pos_x (stepData \<lparr>movementValue = Fin 1, currentStep = NaN,
       itemSize = Fin 10, wrapWidth = Fin 100, shouldWrap = True, isTailEnabled = False,
       isFollowEnabled = False, tailType = classic, focusX = Fin 0,
       viewportWidth = Fin 100\<rparr>) = [NaN]
   \<and> map pos_x (stepData \<lparr>movementValue = Fin 1, currentStep = Fin 0,
       itemSize = Fin 10, wrapWidth = Fin 100, shouldWrap = True, isTailEnabled = False,
       isFollowEnabled = False, tailType = classic, focusX = Fin 0,
       viewportWidth = Fin 100\<rparr>) = [Fin 0]"
  by (simp add: row_defs js_sub_def trunc_def)

end
